theory Spec2Isabelle
  imports Complex_Main
begin

section \<open>Route graph viewer: layout and playback\<close>

text \<open>
  The development embeds the route viewer script (the page that draws an optimised route
  as a node-link diagram and plays a traveller marker along it) and the distance helper of
  the optimise page.

  JavaScript numbers are modelled by \<^typ>\<open>real\<close>: every arithmetic operation is exact and
  there is neither \<open>NaN\<close> nor an infinity. Array indices and counters are \<^typ>\<open>nat\<close>.
  The browser supplies four things the script does not define: the label measurement
  (\<open>getBBox\<close>), the random source (\<open>Math.random\<close>), the force simulation of the d3 library,
  and the conversion of strings to numbers; each one is a parameter of the model.
\<close>

subsection \<open>Numeric primitives of the host language\<close>

text \<open>\<open>Math.hypot(x, y)\<close>.\<close>

definition hypot :: "real \<Rightarrow> real \<Rightarrow> real" where
  "hypot u v = sqrt (u * u + v * v)"

text \<open>\<open>Math.round\<close> rounds to the nearest integer, halves upwards.\<close>

definition js_round :: "real \<Rightarrow> real" where
  "js_round v = of_int \<lfloor>v + 1 / 2\<rfloor>"

text \<open>\<open>Math.atan2(y, x)\<close>, the angle of the point \<open>(x, y)\<close> in \<open>(-pi, pi]\<close>.\<close>

definition atan2 :: "real \<Rightarrow> real \<Rightarrow> real" where
  "atan2 v u =
     (if 0 < u then arctan (v / u)
      else if u < 0 then (if 0 \<le> v then arctan (v / u) + pi else arctan (v / u) - pi)
      else if 0 < v then pi / 2
      else if v < 0 then - (pi / 2)
      else 0)"

subsection \<open>Great-circle distance\<close>

text \<open>
  \<open>haversineKm(lat1, lon1, lat2, lon2)\<close> of the viewer:
  \<^verbatim>\<open>
  const toRad = (d) => d * Math.PI / 180;
  const R = 6371;
  const dLat = toRad(lat2 - lat1);
  const dLon = toRad(lon2 - lon1);
  const a = Math.sin(dLat/2) * Math.sin(dLat/2)
          + Math.cos(toRad(lat1)) * Math.cos(toRad(lat2)) * Math.sin(dLon/2) * Math.sin(dLon/2);
  const c = 2 * Math.atan2(Math.sqrt(a), Math.sqrt(1-a));
  return R * c;\<close>
\<close>

definition toRad :: "real \<Rightarrow> real" where
  "toRad d = d * pi / 180"

definition haversineKm :: "real \<Rightarrow> real \<Rightarrow> real \<Rightarrow> real \<Rightarrow> real" where
  "haversineKm lat1 lon1 lat2 lon2 =
     (let R = 6371;
          dLat = toRad (lat2 - lat1);
          dLon = toRad (lon2 - lon1);
          a = sin (dLat / 2) * sin (dLat / 2)
              + cos (toRad lat1) * cos (toRad lat2) * sin (dLon / 2) * sin (dLon / 2);
          c = 2 * atan2 (sqrt a) (sqrt (1 - a))
      in R * c)"

text \<open>
  \<open>calculateDistance(coord1, coord2)\<close> of the optimise page takes two records with the
  fields \<open>lat\<close> and \<open>lng\<close> and inlines the conversion to radians.
\<close>

record coord =
  lat :: real
  lng :: real

definition calculateDistance :: "'a coord_scheme \<Rightarrow> 'b coord_scheme \<Rightarrow> real" where
  "calculateDistance coord1 coord2 =
     (let R = 6371;
          dLat = (lat coord2 - lat coord1) * pi / 180;
          dLon = (lng coord2 - lng coord1) * pi / 180;
          a = sin (dLat / 2) * sin (dLat / 2)
              + cos (lat coord1 * pi / 180) * cos (lat coord2 * pi / 180)
                * sin (dLon / 2) * sin (dLon / 2);
          c = 2 * atan2 (sqrt a) (sqrt (1 - a))
      in R * c)"

text \<open>
  The haversine formula as the specification names it: the haversine of an angle is the
  squared sine of its half, and the distance is twice the radius of 6371 km times the
  arc sine of the root of the haversine of the central angle, for coordinates in degrees.
\<close>

definition hav :: "real \<Rightarrow> real" where
  "hav t = (sin (t / 2))\<^sup>2"

definition haversine_formula :: "real \<Rightarrow> real \<Rightarrow> real \<Rightarrow> real \<Rightarrow> real" where
  "haversine_formula lat1 lon1 lat2 lon2 =
     2 * 6371 * arcsin (sqrt (hav (toRad (lat2 - lat1))
                              + cos (toRad lat1) * cos (toRad lat2) * hav (toRad (lon2 - lon1))))"

subsection \<open>Input normalisation\<close>

text \<open>
  A record of the route data carries its coordinates under \<open>lat\<close>/\<open>lng\<close> or under
  \<open>latitude\<close>/\<open>longitude\<close>; a field that is absent reads as \<open>undefined\<close>. The unary
  plus of the script converts a value to a number; the conversion of a string is the
  host's (parameter \<open>StringToNumber\<close>), and \<open>NaN\<close> is its answer for a string that is
  no numeral.
\<close>

datatype jsnum = Finite real | NaN

datatype jsval = Undefined | Null | Bool bool | Num jsnum | Str string

fun ToNumber :: "(string \<Rightarrow> jsnum) \<Rightarrow> jsval \<Rightarrow> jsnum" where
  "ToNumber StringToNumber Undefined = NaN"
| "ToNumber StringToNumber Null = Finite 0"
| "ToNumber StringToNumber (Bool b) = Finite (if b then 1 else 0)"
| "ToNumber StringToNumber (Num n) = n"
| "ToNumber StringToNumber (Str s) = StringToNumber s"

record raw_point =
  raw_lat :: jsval
  raw_lng :: jsval
  raw_latitude :: jsval
  raw_longitude :: jsval
  raw_location :: "string option"
  raw_name :: "string option"

record norm_point =
  n_lat :: jsnum
  n_lng :: jsnum
  n_name :: string

text \<open>\<open>s || t\<close> on strings: the empty string and \<open>undefined\<close> are falsy.\<close>

fun or_string :: "string option \<Rightarrow> string \<Rightarrow> string" where
  "or_string None t = t"
| "or_string (Some s) t = (if s = [] then t else s)"

text \<open>
  The callback of \<open>map\<close> in the normalisation; \<open>None\<close> is its \<open>null\<close>, which
  \<open>filter(Boolean)\<close> drops.
\<close>

definition normalizePoint :: "(string \<Rightarrow> jsnum) \<Rightarrow> raw_point \<Rightarrow> norm_point option" where
  "normalizePoint StringToNumber p =
     (if raw_lat p \<noteq> Undefined \<and> raw_lng p \<noteq> Undefined then
        Some \<lparr>n_lat = ToNumber StringToNumber (raw_lat p),
              n_lng = ToNumber StringToNumber (raw_lng p),
              n_name = or_string (raw_location p) (or_string (raw_name p) [])\<rparr>
      else if raw_latitude p \<noteq> Undefined \<and> raw_longitude p \<noteq> Undefined then
        Some \<lparr>n_lat = ToNumber StringToNumber (raw_latitude p),
              n_lng = ToNumber StringToNumber (raw_longitude p),
              n_name = or_string (raw_name p) []\<rparr>
      else None)"

definition normalizePoints :: "(string \<Rightarrow> jsnum) \<Rightarrow> raw_point list \<Rightarrow> norm_point list" where
  "normalizePoints StringToNumber ps = List.map_filter (normalizePoint StringToNumber) ps"

text \<open>
  The head of the page script. \<open>ROUTE_DATA\<close> may be missing; an array, even an empty one,
  is truthy, so \<open>route_with_coords\<close> wins over \<open>coordinates\<close> whenever it is present.
  The script returns after writing a message into the container in the first two cases and
  goes on to build the canvas, the layout and the playback controls in the third.
\<close>

record route_data =
  route_with_coords :: "raw_point list option"
  coordinates :: "raw_point list option"

datatype page = NoRouteData | NoCoordinates | Canvas "norm_point list"

definition rawPoints :: "route_data \<Rightarrow> raw_point list" where
  "rawPoints rd =
     (case route_with_coords rd of
        Some ps \<Rightarrow> ps
      | None \<Rightarrow> (case coordinates rd of Some ps \<Rightarrow> ps | None \<Rightarrow> []))"

definition initPage :: "(string \<Rightarrow> jsnum) \<Rightarrow> route_data option \<Rightarrow> page" where
  "initPage StringToNumber ROUTE_DATA =
     (case ROUTE_DATA of
        None \<Rightarrow> NoRouteData
      | Some rd \<Rightarrow>
          (let points = normalizePoints StringToNumber (rawPoints rd)
           in if length points = 0 then NoCoordinates else Canvas points))"

subsection \<open>The page: points, viewport and host services\<close>

text \<open>
  From here on the normalised points have finite coordinates. A point is a coordinate pair
  with a name.
\<close>

record point = coord +
  name :: string

text \<open>What \<open>d3.forceSimulation\<close> is given for each node.\<close>

record sim_node =
  sn_id :: nat
  sn_x :: real
  sn_y :: real
  sn_sizeScale :: real
  sn_labelWidth :: real
  sn_labelHeight :: real
  sn_fontSize :: real

text \<open>
  \<open>getBBox label fontSize\<close> is the measured width and height of the hidden text element,
  or \<open>None\<close> when the measurement throws. \<open>random k\<close> is the result of the \<open>k\<close>-th call of
  \<open>Math.random\<close>. \<open>forceSimulation targetLength (cx, cy) nodes i\<close> is the position of node
  \<open>i\<close> after the 300 ticks of the simulation with the link, charge, collision and centring
  forces of the script. \<open>speedRange\<close> is what \<open>parseFloat\<close> reads from the speed slider
  when the page loads, and \<open>uniformBtn\<close> tells whether the page has the layout button.
\<close>

record env =
  points :: "point list"
  innerWidth :: real
  innerHeight :: real
  getBBox :: "string \<Rightarrow> real \<Rightarrow> (real \<times> real) option"
  random :: "nat \<Rightarrow> real"
  forceSimulation :: "real \<Rightarrow> real \<times> real \<Rightarrow> sim_node list \<Rightarrow> nat \<Rightarrow> real \<times> real"
  speedRange :: real
  uniformBtn :: bool

definition width :: "env \<Rightarrow> real" where
  "width e = max 600 (innerWidth e)"

definition height :: "env \<Rightarrow> real" where
  "height e = max 400 (innerHeight e)"

definition pad :: real where
  "pad = 40"

subsection \<open>Coordinate projection\<close>

text \<open>
  \<open>d3.min\<close> and \<open>d3.max\<close> of a non-empty array of numbers. The script has returned before
  this point when there are no points, so the empty array has no equation.
\<close>

fun d3_min :: "real list \<Rightarrow> real" where
  "d3_min (v # vs) = fold min vs v"

fun d3_max :: "real list \<Rightarrow> real" where
  "d3_max (v # vs) = fold max vs v"

text \<open>
  \<^verbatim>\<open>if (Math.abs(hi - lo) < 1e-6) { lo -= 0.5; hi += 0.5; }\<close>, which the script applies to
  each of its four extents.
\<close>

definition widen :: "real \<times> real \<Rightarrow> real \<times> real" where
  "widen d = (case d of (lo, hi) \<Rightarrow>
     if \<bar>hi - lo\<bar> < 1 / 1000000 then (lo - 1 / 2, hi + 1 / 2) else (lo, hi))"

definition compressionExp :: real where
  "compressionExp = 6 / 10"

text \<open>\<^verbatim>\<open>Math.sign(d) * Math.pow(Math.abs(d), compressionExp) + center\<close> with \<open>d = v - center\<close>.\<close>

definition compress :: "real \<Rightarrow> real \<Rightarrow> real" where
  "compress center v = (let d = v - center in sgn d * (\<bar>d\<bar> powr compressionExp) + center)"

text \<open>The extent of the compressed values of one axis, widened when degenerate.\<close>

definition transDomain :: "real list \<Rightarrow> real \<times> real" where
  "transDomain vs =
     (case widen (d3_min vs, d3_max vs) of (vMin, vMax) \<Rightarrow>
        let center = (vMin + vMax) / 2;
            trans = map (compress center) vs
        in widen (d3_min trans, d3_max trans))"

text \<open>\<open>d3.scaleLinear().domain([d0, d1]).range([r0, r1])\<close> on a domain with \<open>d0 \<noteq> d1\<close>.\<close>

definition scaleLinear :: "real \<times> real \<Rightarrow> real \<times> real \<Rightarrow> real \<Rightarrow> real" where
  "scaleLinear dm rg v =
     (case dm of (d0, d1) \<Rightarrow> case rg of (r0, r1) \<Rightarrow>
        let t = (v - d0) / (d1 - d0) in r0 * (1 - t) + r1 * t)"

definition xScale :: "env \<Rightarrow> real \<Rightarrow> real" where
  "xScale e =
     (case transDomain (map lng (points e)) of (lonTMin, lonTMax) \<Rightarrow>
        scaleLinear (lonTMin, lonTMax) (pad, width e - pad))"

definition yScale :: "env \<Rightarrow> real \<Rightarrow> real" where
  "yScale e =
     (case transDomain (map lat (points e)) of (latTMin, latTMax) \<Rightarrow>
        scaleLinear (latTMax, latTMin) (pad, height e - pad))"

subsection \<open>Node positions and label metrics\<close>

text \<open>
  One entry of \<open>nodePositions\<close>. The fields \<open>x\<close>, \<open>y\<close> and \<open>_drawn\<close> of the script are
  \<open>pos_x\<close>, \<open>pos_y\<close> and \<open>drawn\<close> here. The script reads and writes \<open>nodePositions\<close> by
  index only and never asks for its length, so the array is a partial map from indices to
  entries; \<open>None\<close> is a hole of the array.
\<close>

record node_pos =
  pos_x :: real
  pos_y :: real
  label :: string
  fontSize :: real
  sizeScale :: real
  labelY :: real
  labelWidth :: real
  labelHeight :: real
  drawn :: bool

type_synonym positions = "nat \<Rightarrow> node_pos option"

text \<open>
  The object literal \<open>{}\<close> and the objects that lack some fields: a field that the script
  would read as \<open>undefined\<close> holds the falsy value of its type, which \<open>||\<close> treats alike.
\<close>

definition emptyObject :: node_pos where
  "emptyObject = \<lparr>pos_x = 0, pos_y = 0, label = [], fontSize = 0, sizeScale = 0, labelY = 0,
                   labelWidth = 0, labelHeight = 0, drawn = False\<rparr>"

text \<open>\<open>v || d\<close> on numbers.\<close>

definition or_num :: "real \<Rightarrow> real \<Rightarrow> real" where
  "or_num v d = (if v = 0 then d else v)"

text \<open>The decimal numeral of a natural number, as the template literal prints it.\<close>

definition digit_char :: "nat \<Rightarrow> char" where
  "digit_char d = char_of (48 + d)"

function string_of_nat :: "nat \<Rightarrow> string" where
  "string_of_nat n =
     (if n < 10 then [digit_char n] else string_of_nat (n div 10) @ [digit_char (n mod 10)])"
  by pat_completeness auto
termination
  by (relation "measure id") auto

definition clampX :: "env \<Rightarrow> real \<Rightarrow> real" where
  "clampX e v = max pad (min (width e - pad) v)"

definition clampY :: "env \<Rightarrow> real \<Rightarrow> real" where
  "clampY e v = max pad (min (height e - pad) v)"

text \<open>\<^verbatim>\<open>Math.max(8, Math.min(24, Math.round(600 / points.length) + 6))\<close>\<close>

definition nodeSize :: "env \<Rightarrow> real" where
  "nodeSize e = max 8 (min 24 (js_round (600 / real (length (points e))) + 6))"

definition nodeFont :: "env \<Rightarrow> real" where
  "nodeFont e = max 10 (min 20 (js_round (nodeSize e * 9 / 10)))"

definition nodeLabel :: "env \<Rightarrow> nat \<Rightarrow> string" where
  "nodeLabel e i =
     (let p = points e ! i;
          label = (if name p \<noteq> [] then name p else string_of_nat (i + 1))
      in if length label > 60 then take 57 label @ ''...'' else label)"

text \<open>The body of the loop of \<open>computeAllPositions\<close> for index \<open>i\<close>.\<close>

definition computePosition :: "env \<Rightarrow> nat \<Rightarrow> node_pos" where
  "computePosition e i =
     (let sizeScale = nodeSize e;
          fontSize = nodeFont e;
          p = points e ! i;
          label = nodeLabel e i;
          bbox = (case getBBox e label fontSize of
                    Some b \<Rightarrow> b
                  | None \<Rightarrow> (min (width e - 2 * pad)
                                 (real (length label) * max 6 (js_round (fontSize * 6 / 10))), 0));
          labelWidth = min (width e - 2 * pad) (fst bbox);
          labelHeight = or_num (snd bbox) (fontSize + 4);
          rawX = xScale e (lng p);
          rawY = yScale e (lat p);
          clampedX = max (pad + labelWidth / 2) (min (width e - pad - labelWidth / 2) rawX);
          minY = pad + sizeScale;
          maxY = height e - pad - sizeScale - labelHeight - 4;
          clampedY = max minY (min maxY rawY);
          labelY = sizeScale + js_round (fontSize / (3 / 2));
          labelY = (if clampedY + labelY + 4 > height e - pad
                    then - js_round (fontSize / 2) - 4 else labelY)
      in \<lparr>pos_x = clampedX, pos_y = clampedY, label = label, fontSize = fontSize,
          sizeScale = sizeScale, labelY = labelY, labelWidth = labelWidth,
          labelHeight = labelHeight, drawn = False\<rparr>)"

definition computeAllPositions :: "env \<Rightarrow> positions \<Rightarrow> positions" where
  "computeAllPositions e nodePositions =
     fold (\<lambda>i np. np(i \<mapsto> computePosition e i)) [0..<length (points e)] nodePositions"

text \<open>
  \<open>drawNode(index)\<close>, as far as it touches \<open>nodePositions\<close>: an entry already drawn is left
  alone, any other entry is stored again with \<open>_drawn\<close> set; a hole gets the simple
  placement of the fallback branch.
\<close>

definition drawNode :: "env \<Rightarrow> nat \<Rightarrow> positions \<Rightarrow> positions" where
  "drawNode e index nodePositions =
     (case nodePositions index of
        Some pre \<Rightarrow>
          if drawn pre then nodePositions else nodePositions(index \<mapsto> pre\<lparr>drawn := True\<rparr>)
      | None \<Rightarrow>
          (let p = points e ! index
           in nodePositions(index \<mapsto>
                emptyObject\<lparr>pos_x := clampX e (xScale e (lng p)),
                            pos_y := clampY e (yScale e (lat p)),
                            label := nodeLabel e index,
                            fontSize := nodeFont e,
                            sizeScale := nodeSize e,
                            drawn := True\<rparr>)))"

subsection \<open>Collision and collinearity resolution\<close>

text \<open>
  The state of the relaxation: the positions, the number of calls of \<open>Math.random\<close> made
  so far, and the flag \<open>moved\<close> of the current pass.
\<close>

type_synonym relax = "positions \<times> nat \<times> bool"

definition proximityFactor :: "env \<Rightarrow> nat \<Rightarrow> nat \<Rightarrow> real" where
  "proximityFactor e i j =
     (let realKm = haversineKm (lat (points e ! i)) (lng (points e ! i))
                               (lat (points e ! j)) (lng (points e ! j))
      in if realKm < 1000 then 16 / 10 else 1)"

definition baseSep :: "node_pos \<Rightarrow> node_pos \<Rightarrow> real" where
  "baseSep a b = (sizeScale a + sizeScale b) + max (labelWidth a) (labelWidth b) / 2 + 8"

text \<open>
  The four clamped coordinates \<open>axNew, ayNew, bxNew, byNew\<close> of a pair that is closer than
  \<open>minSep\<close>, from the direction \<open>(dx, dy)\<close> and its length (the variable \<open>dist\<close> of the
  script, \<open>dst\<close> here).
\<close>

definition pushApart ::
  "env \<Rightarrow> real \<Rightarrow> real \<Rightarrow> real \<Rightarrow> real \<Rightarrow> node_pos \<Rightarrow> node_pos \<Rightarrow> (real \<times> real) \<times> (real \<times> real)" where
  "pushApart e minSep dx dy dst a b =
     (let overlap = (minSep - dst) / 2;
          nx = dx / or_num dst 1;
          ny = dy / or_num dst 1
      in ((clampX e (pos_x a - nx * overlap), clampY e (pos_y a - ny * overlap)),
          (clampX e (pos_x b + nx * overlap), clampY e (pos_y b + ny * overlap))))"

text \<open>
  The vector from \<open>a\<close> to \<open>b\<close> with its length; a pair at distance zero draws a random
  vector instead, which costs two calls of \<open>Math.random\<close>.
\<close>

definition direction :: "env \<Rightarrow> nat \<Rightarrow> node_pos \<Rightarrow> node_pos \<Rightarrow> (real \<times> real \<times> real) \<times> nat" where
  "direction e k a b =
     (let dx = pos_x b - pos_x a;
          dy = pos_y b - pos_y a;
          dst = hypot dx dy
      in if dst = 0
         then (let dx = (random e k - 1 / 2) * 1;
                   dy = (random e (k + 1) - 1 / 2) * 1
               in ((dx, dy, hypot dx dy), k + 2))
         else ((dx, dy, dst), k))"

text \<open>The body of the inner loop of \<open>resolveCollisions\<close> for the pair \<open>(i, j)\<close>.\<close>

definition separatePair :: "env \<Rightarrow> nat \<times> nat \<Rightarrow> relax \<Rightarrow> relax" where
  "separatePair e ij s =
     (case ij of (i, j) \<Rightarrow> case s of (nodePositions, k, moved) \<Rightarrow>
        (case (nodePositions i, nodePositions j) of
           (Some a, Some b) \<Rightarrow>
             (case direction e k a b of ((dx, dy, dst), k') \<Rightarrow>
                let minSep = baseSep a b * proximityFactor e i j
                in if dst < minSep then
                     (case pushApart e minSep dx dy dst a b of ((axNew, ayNew), (bxNew, byNew)) \<Rightarrow>
                        (nodePositions(i \<mapsto> a\<lparr>pos_x := axNew, pos_y := ayNew\<rparr>,
                                       j \<mapsto> b\<lparr>pos_x := bxNew, pos_y := byNew\<rparr>),
                         k',
                         moved \<or> axNew \<noteq> pos_x a \<or> ayNew \<noteq> pos_y a
                               \<or> bxNew \<noteq> pos_x b \<or> byNew \<noteq> pos_y b))
                   else (nodePositions, k', moved))
         | _ \<Rightarrow> s))"

text \<open>The pairs \<open>(i, j)\<close> with \<open>i < j < n\<close> in the order of the two nested loops.\<close>

definition pairs :: "nat \<Rightarrow> (nat \<times> nat) list" where
  "pairs n = concat (map (\<lambda>i. map (Pair i) [Suc i..<n]) [0..<n])"

definition separationPass :: "env \<Rightarrow> positions \<times> nat \<Rightarrow> relax" where
  "separationPass e s = (case s of (nodePositions, k) \<Rightarrow>
     fold (separatePair e) (pairs (length (points e))) (nodePositions, k, False))"

text \<open>
  The outer loop with \<open>n\<close> passes left. The flag of the result tells how the loop ended:
  \<open>True\<close> when a pass made no change and the loop left through \<open>break\<close>, \<open>False\<close> when
  the passes ran out.
\<close>

fun separationLoop :: "env \<Rightarrow> nat \<Rightarrow> positions \<times> nat \<Rightarrow> relax" where
  "separationLoop e 0 s = (fst s, snd s, False)"
| "separationLoop e (Suc n) s =
     (case separationPass e s of (nodePositions, k, moved) \<Rightarrow>
        if \<not> moved then (nodePositions, k, True) else separationLoop e n (nodePositions, k))"

text \<open>The body of the innermost loop of \<open>resolveCollinearity\<close> for the triple \<open>(i, j, k)\<close>.\<close>

definition angleThreshold :: real where
  "angleThreshold = 45 * pi / 180"

definition nudgeTriple :: "env \<Rightarrow> nat \<times> nat \<times> nat \<Rightarrow> positions \<times> bool \<Rightarrow> positions \<times> bool" where
  "nudgeTriple e ijk s =
     (case ijk of (i, j, k) \<Rightarrow> case s of (nodePositions, adjusted) \<Rightarrow>
        if i = j \<or> j = k \<or> i = k then s
        else
          (case (nodePositions i, nodePositions j, nodePositions k) of
             (Some a, Some b, Some c) \<Rightarrow>
               (let v1x = pos_x a - pos_x b; v1y = pos_y a - pos_y b;
                    v2x = pos_x c - pos_x b; v2y = pos_y c - pos_y b;
                    mag1 = hypot v1x v1y; mag2 = hypot v2x v2y
                in if mag1 < 1 / 1000000 \<or> mag2 < 1 / 1000000 then s
                   else
                     (let dot = v1x * v2x + v1y * v2y;
                          ang = arccos (max (- 1) (min 1 (dot / (mag1 * mag2))))
                      in if ang < angleThreshold \<or> \<bar>pi - ang\<bar> < angleThreshold then
                           (let nx = v1x / mag1; ny = v1y / mag1;
                                px = - ny; py = nx;
                                aSize = or_num (sizeScale a) 12;
                                cSize = or_num (sizeScale c) 12;
                                abKm = haversineKm (lat (points e ! i)) (lng (points e ! i))
                                                   (lat (points e ! j)) (lng (points e ! j));
                                cbKm = haversineKm (lat (points e ! k)) (lng (points e ! k))
                                                   (lat (points e ! j)) (lng (points e ! j));
                                nudgeMultiplier =
                                  (if (abKm \<noteq> 0 \<and> abKm < 1000) \<or> (cbKm \<noteq> 0 \<and> cbKm < 1000)
                                   then 16 / 10 else 1);
                                nudge = max 10 ((aSize + cSize) * (6 / 10) * nudgeMultiplier);
                                dir = (if j mod 2 = 0 then 1 else - 1)
                            in (nodePositions(j \<mapsto>
                                  b\<lparr>pos_x := clampX e (pos_x b + px * nudge * dir),
                                    pos_y := clampY e (pos_y b + py * nudge * dir)\<rparr>),
                                True))
                         else s))
           | _ \<Rightarrow> s))"

definition triples :: "nat \<Rightarrow> (nat \<times> nat \<times> nat) list" where
  "triples n =
     concat (map (\<lambda>i. concat (map (\<lambda>j. map (\<lambda>k. (i, j, k)) [0..<n]) [0..<n])) [0..<n])"

definition resolveCollinearity :: "env \<Rightarrow> positions \<Rightarrow> positions \<times> bool" where
  "resolveCollinearity e nodePositions =
     fold (nudgeTriple e) (triples (length (points e))) (nodePositions, False)"

fun collinearityLoop :: "env \<Rightarrow> nat \<Rightarrow> positions \<Rightarrow> positions" where
  "collinearityLoop e 0 nodePositions = nodePositions"
| "collinearityLoop e (Suc n) nodePositions =
     (case resolveCollinearity e nodePositions of (nodePositions', changed) \<Rightarrow>
        if \<not> changed then nodePositions' else collinearityLoop e n nodePositions')"

text \<open>
  \<open>resolveCollisions\<close>: up to 25 separation passes, then up to 6 collinearity passes. The
  result carries the positions, the count of random calls, and the flag of the separation
  loop.
\<close>

definition resolveCollisions :: "env \<Rightarrow> positions \<times> nat \<Rightarrow> relax" where
  "resolveCollisions e s =
     (case separationLoop e 25 s of (nodePositions, k, stopped) \<Rightarrow>
        (collinearityLoop e 6 nodePositions, k, stopped))"

subsection \<open>Uniform link layout\<close>

text \<open>The simulation node that \<open>applyUniformLinkLayout\<close> builds for point \<open>i\<close>.\<close>

definition uniformNode :: "env \<Rightarrow> positions \<Rightarrow> nat \<Rightarrow> sim_node" where
  "uniformNode e nodePositions i =
     (let p = points e ! i;
          pre = (case nodePositions i of Some q \<Rightarrow> q | None \<Rightarrow> emptyObject)
      in \<lparr>sn_id = i,
          sn_x = or_num (pos_x pre) (xScale e (lng p)),
          sn_y = or_num (pos_y pre) (yScale e (lat p)),
          sn_sizeScale = or_num (sizeScale pre) (nodeSize e),
          sn_labelWidth = or_num (labelWidth pre)
             (real (length (if name p \<noteq> [] then name p else string_of_nat (i + 1))) * 6),
          sn_labelHeight = or_num (labelHeight pre) 12,
          sn_fontSize = or_num (fontSize pre) 12\<rparr>)"

text \<open>The write-back of one simulated node, clamped to the padding.\<close>

definition writeBack :: "env \<Rightarrow> (nat \<Rightarrow> real \<times> real) \<Rightarrow> sim_node \<Rightarrow> positions \<Rightarrow> positions" where
  "writeBack e sim n nodePositions =
     nodePositions(sn_id n \<mapsto>
       (case nodePositions (sn_id n) of Some q \<Rightarrow> q | None \<Rightarrow> emptyObject)
         \<lparr>pos_x := clampX e (fst (sim (sn_id n))),
          pos_y := clampY e (snd (sim (sn_id n))),
          sizeScale := sn_sizeScale n,
          labelWidth := sn_labelWidth n,
          labelHeight := sn_labelHeight n,
          fontSize := sn_fontSize n\<rparr>)"

definition uniformPositions :: "env \<Rightarrow> real \<Rightarrow> positions \<Rightarrow> positions" where
  "uniformPositions e targetLength nodePositions =
     (let nodes = map (uniformNode e nodePositions) [0..<length (points e)];
          sim = forceSimulation e targetLength (width e / 2, height e / 2) nodes
      in fold (writeBack e sim) nodes nodePositions)"

subsection \<open>Relaxation of the revert to the geographic layout\<close>

text \<open>
  The click handler of the layout button does not call \<open>resolveCollisions\<close> again; it runs
  its own loop, with 20 passes, no proximity factor, no collinearity correction, and a
  flag \<open>moved\<close> that is set for every pair closer than \<open>minSep\<close>.
\<close>

definition relaxPair :: "env \<Rightarrow> nat \<times> nat \<Rightarrow> relax \<Rightarrow> relax" where
  "relaxPair e ij s =
     (case ij of (i, j) \<Rightarrow> case s of (nodePositions, k, moved) \<Rightarrow>
        (case (nodePositions i, nodePositions j) of
           (Some a, Some b) \<Rightarrow>
             (case direction e k a b of ((dx, dy, dst), k') \<Rightarrow>
                let minSep = baseSep a b
                in if dst < minSep then
                     (case pushApart e minSep dx dy dst a b of ((axNew, ayNew), (bxNew, byNew)) \<Rightarrow>
                        (nodePositions(i \<mapsto> a\<lparr>pos_x := axNew, pos_y := ayNew\<rparr>,
                                       j \<mapsto> b\<lparr>pos_x := bxNew, pos_y := byNew\<rparr>),
                         k', True))
                   else (nodePositions, k', moved))
         | _ \<Rightarrow> s))"

fun relaxLoop :: "env \<Rightarrow> nat \<Rightarrow> positions \<times> nat \<Rightarrow> positions \<times> nat" where
  "relaxLoop e 0 s = s"
| "relaxLoop e (Suc n) s =
     (case fold (relaxPair e) (pairs (length (points e))) (fst s, snd s, False) of
        (nodePositions, k, moved) \<Rightarrow>
          if \<not> moved then (nodePositions, k) else relaxLoop e n (nodePositions, k))"

subsection \<open>Page state and playback\<close>

text \<open>
  One pending animation: the closure of \<open>step\<close> inside \<open>animateTo(nextIndex)\<close>, with the
  end points \<open>ax, ay, bx, by\<close> of the segment, the duration fixed when \<open>animateTo\<close> was
  called, and the variable \<open>start\<close> (\<open>None\<close> is \<open>null\<close>).
\<close>

record anim =
  nextIndex :: nat
  seg_ax :: real
  seg_ay :: real
  seg_bx :: real
  seg_by :: real
  duration :: real
  start :: "real option"

text \<open>
  The mutable state of the page. \<open>traveller\<close> holds the attributes \<open>cx\<close>, \<open>cy\<close> of the
  marker (for a transition, the values it ends at). \<open>callbacks\<close> is the queue of
  \<open>requestAnimationFrame\<close>, in the order of registration; every entry is a \<open>step\<close>
  closure whose \<open>playSequence\<close> waits for it. \<open>timers\<close> counts the runs of \<open>playSequence\<close>
  that wait in their 250 ms \<open>setTimeout\<close>.
\<close>

record state =
  nodePositions :: positions
  randomCalls :: nat
  traveller :: "real \<times> real"
  playing :: bool
  speed :: real
  currentIndex :: nat
  isUniform :: bool
  callbacks :: "anim list"
  timers :: nat

text \<open>\<^verbatim>\<open>if (nodePositions[0]) traveller.attr('cx', nodePositions[0].x).attr('cy', nodePositions[0].y)\<close>\<close>

definition travellerToFirst :: "state \<Rightarrow> state" where
  "travellerToFirst s =
     (case nodePositions s 0 of
        Some p \<Rightarrow> s\<lparr>traveller := (pos_x p, pos_y p)\<rparr>
      | None \<Rightarrow> s)"

definition applyUniformLinkLayout :: "env \<Rightarrow> real \<Rightarrow> state \<Rightarrow> state" where
  "applyUniformLinkLayout e targetLength s =
     (if length (points e) \<le> 1 then s
      else travellerToFirst (s\<lparr>nodePositions := uniformPositions e targetLength (nodePositions s)\<rparr>))"

text \<open>The script from \<open>computeAllPositions()\<close> to the end, for a non-empty list of points.\<close>

definition load :: "env \<Rightarrow> state" where
  "load e =
     (let np = computeAllPositions e Map.empty;
          np = drawNode e 0 np;
          s = \<lparr>nodePositions = np, randomCalls = 0, traveller = (0, 0), playing = False,
               speed = or_num (speedRange e) 1, currentIndex = 0, isUniform = False,
               callbacks = [], timers = 0\<rparr>;
          s = travellerToFirst s;
          s = (case resolveCollisions e (nodePositions s, randomCalls s) of
                 (np, k, stopped) \<Rightarrow> s\<lparr>nodePositions := np, randomCalls := k\<rparr>);
          s = travellerToFirst s
      in if uniformBtn e then applyUniformLinkLayout e 250 (s\<lparr>isUniform := True\<rparr>) else s)"

text \<open>The click handler of the layout button.\<close>

definition toggleUniform :: "env \<Rightarrow> state \<Rightarrow> state" where
  "toggleUniform e s =
     (let s = s\<lparr>isUniform := \<not> isUniform s\<rparr>
      in if isUniform s then applyUniformLinkLayout e 320 s
         else
           (case relaxLoop e 20 (computeAllPositions e (nodePositions s), randomCalls s) of
              (np, k) \<Rightarrow> travellerToFirst (s\<lparr>nodePositions := np, randomCalls := k\<rparr>)))"

text \<open>
  \<open>animateTo(nextIndex)\<close> up to its call of \<open>requestAnimationFrame\<close>: the end points are
  read from \<open>nodePositions\<close> (from the scales for a hole), the duration is computed from
  the pixel distance and the current speed, and the closure is queued.
\<close>

definition nodeXY :: "env \<Rightarrow> positions \<Rightarrow> nat \<Rightarrow> real \<times> real" where
  "nodeXY e np i =
     (case np i of
        Some p \<Rightarrow> (pos_x p, pos_y p)
      | None \<Rightarrow> (xScale e (lng (points e ! i)), yScale e (lat (points e ! i))))"

definition animateTo :: "env \<Rightarrow> nat \<Rightarrow> state \<Rightarrow> state" where
  "animateTo e nxt s =
     (case nodeXY e (nodePositions s) (nxt - 1) of (ax, ay) \<Rightarrow>
      case nodeXY e (nodePositions s) nxt of (bx, by') \<Rightarrow>
        let distance = hypot (bx - ax) (by' - ay);
            baseMs = max 400 (min 6000 (distance * 6));
            duration = baseMs / speed s
        in s\<lparr>callbacks := callbacks s @
              [\<lparr>nextIndex = nxt, seg_ax = ax, seg_ay = ay, seg_bx = bx, seg_by = by',
                duration = duration, start = None\<rparr>]\<rparr>)"

text \<open>
  The head of the \<open>while\<close> loop of \<open>playSequence\<close>: either the next segment starts, or the
  loop ends and \<open>playing\<close> is cleared.
\<close>

definition loopHead :: "env \<Rightarrow> state \<Rightarrow> state" where
  "loopHead e s =
     (if playing s \<and> currentIndex s < length (points e) - 1 then
        (let nxt = currentIndex s + 1;
             s = s\<lparr>nodePositions := drawNode e nxt (nodePositions s)\<rparr>
         in animateTo e nxt s)
      else s\<lparr>playing := False\<rparr>)"

definition playSequence :: "env \<Rightarrow> state \<Rightarrow> state" where
  "playSequence e s =
     (if currentIndex s \<ge> length (points e) - 1 then s
      else loopHead e (s\<lparr>playing := True\<rparr>))"

text \<open>
  One call of \<open>step(ts)\<close> for a queued closure. When the animation resolves, the run of
  \<open>playSequence\<close> that awaits it goes on at once: it stores \<open>next\<close> in \<open>currentIndex\<close> and
  starts its timer.
\<close>

definition step :: "real \<Rightarrow> anim \<Rightarrow> state \<Rightarrow> state" where
  "step ts an s =
     (if \<not> playing s then s\<lparr>callbacks := callbacks s @ [an\<lparr>start := None\<rparr>]\<rparr>
      else
        (let start = (case start an of
                        None \<Rightarrow> ts
                      | Some v \<Rightarrow> if v = 0 then ts else v);
             t = min 1 ((ts - start) / duration an);
             cx = seg_ax an + (seg_bx an - seg_ax an) * t;
             cy = seg_ay an + (seg_by an - seg_ay an) * t;
             s = s\<lparr>traveller := (cx, cy)\<rparr>
         in if t < 1 then s\<lparr>callbacks := callbacks s @ [an\<lparr>start := Some start\<rparr>]\<rparr>
            else s\<lparr>currentIndex := nextIndex an, timers := timers s + 1\<rparr>))"

text \<open>
  The events of the page: the two playback buttons, the slider, an animation frame with
  its time stamp (all queued closures run, in order), the expiry of the oldest timer, and
  the layout button.
\<close>

datatype event = Play | Pause | SpeedInput real | Frame real | Timeout | ToggleUniform

fun handle :: "env \<Rightarrow> event \<Rightarrow> state \<Rightarrow> state" where
  "handle e Play s = (if \<not> playing s then playSequence e s else s)"
| "handle e Pause s = s\<lparr>playing := False\<rparr>"
| "handle e (SpeedInput v) s = s\<lparr>speed := or_num v 1\<rparr>"
| "handle e (Frame ts) s = fold (step ts) (callbacks s) (s\<lparr>callbacks := []\<rparr>)"
| "handle e Timeout s =
     (if timers s = 0 then s else loopHead e (s\<lparr>timers := timers s - 1\<rparr>))"
| "handle e ToggleUniform s = (if uniformBtn e then toggleUniform e s else s)"

definition run :: "env \<Rightarrow> event list \<Rightarrow> state" where
  "run e evs = fold (handle e) evs (load e)"

subsection \<open>Sample inputs\<close>

text \<open>A record is kept by the normalisation when one of its two coordinate pairs is complete.\<close>

definition hasCoordinates :: "raw_point \<Rightarrow> bool" where
  "hasCoordinates p \<longleftrightarrow>
     (raw_lat p \<noteq> Undefined \<and> raw_lng p \<noteq> Undefined)
     \<or> (raw_latitude p \<noteq> Undefined \<and> raw_longitude p \<noteq> Undefined)"

text \<open>A record whose latitude is a string that is no numeral, and one without a latitude.\<close>

definition unparseable_record :: raw_point where
  "unparseable_record =
     \<lparr>raw_lat = Str ''abc'', raw_lng = Num (Finite 10), raw_latitude = Undefined,
      raw_longitude = Undefined, raw_location = None, raw_name = Some ''X''\<rparr>"

definition absent_record :: raw_point where
  "absent_record =
     \<lparr>raw_lat = Undefined, raw_lng = Num (Finite 10), raw_latitude = Undefined,
      raw_longitude = Undefined, raw_location = None, raw_name = Some ''X''\<rparr>"

text \<open>
  The route of three waypoints \<open>A\<close>, \<open>B\<close>, \<open>C\<close> at \<open>(0, 0)\<close>, \<open>(0, 10)\<close>, \<open>(10, 10)\<close> in a
  viewport of 800 by 600, with a text measurement of 11 by 24 pixels per character.
\<close>

definition abc_env :: env where
  "abc_env =
     \<lparr>points = [\<lparr>lat = 0, lng = 0, name = ''A''\<rparr>,
                \<lparr>lat = 0, lng = 10, name = ''B''\<rparr>,
                \<lparr>lat = 10, lng = 10, name = ''C''\<rparr>],
      innerWidth = 800, innerHeight = 600,
      getBBox = (\<lambda>l f. Some (11 * real (length l), 24)),
      random = (\<lambda>k. 0),
      forceSimulation = (\<lambda>t c ns i. c),
      speedRange = 1, uniformBtn = True\<rparr>"

subsection \<open>Predicates on layouts\<close>

text \<open>
  The measurement never returns a negative width or height. A node is in bounds when both
  coordinates lie between the padding and the canvas size minus the padding.
\<close>

definition measureOK :: "env \<Rightarrow> bool" where
  "measureOK e \<longleftrightarrow> (\<forall>l f w h. getBBox e l f = Some (w, h) \<longrightarrow> 0 \<le> w \<and> 0 \<le> h)"

definition inBounds :: "env \<Rightarrow> node_pos \<Rightarrow> bool" where
  "inBounds e p \<longleftrightarrow>
     pad \<le> pos_x p \<and> pos_x p \<le> width e - pad \<and> pad \<le> pos_y p \<and> pos_y p \<le> height e - pad"

definition allInBounds :: "env \<Rightarrow> positions \<Rightarrow> bool" where
  "allInBounds e np \<longleftrightarrow> (\<forall>i p. np i = Some p \<longrightarrow> inBounds e p)"

definition allPlaced :: "env \<Rightarrow> positions \<Rightarrow> bool" where
  "allPlaced e np \<longleftrightarrow> (\<forall>i < length (points e). np i \<noteq> None)"

definition layoutOK :: "env \<Rightarrow> positions \<Rightarrow> bool" where
  "layoutOK e np \<longleftrightarrow> allPlaced e np \<and> allInBounds e np"

text \<open>The marker sits on the start node.\<close>

definition travellerAtFirst :: "state \<Rightarrow> bool" where
  "travellerAtFirst s \<longleftrightarrow> (\<exists>p. nodePositions s 0 = Some p \<and> traveller s = (pos_x p, pos_y p))"

text \<open>
  What every reachable state satisfies: the start node has an entry, and a route of a
  single point has no animation, no timer, and the marker on its node.
\<close>

definition firstReady :: "env \<Rightarrow> state \<Rightarrow> bool" where
  "firstReady e s \<longleftrightarrow>
     nodePositions s 0 \<noteq> None
     \<and> (length (points e) = 1 \<longrightarrow> callbacks s = [] \<and> timers s = 0 \<and> travellerAtFirst s)"

text \<open>
  A route of two waypoints on one meridian, two degrees of latitude apart, with labels of
  52 characters, in a viewport of 600 by 500; the measurement gives 11 pixels per character
  and a height of 24.
\<close>

definition two_env :: env where
  "two_env =
     \<lparr>points = [\<lparr>lat = 1, lng = 0, name = ''Central Station of the Northern Coastal Railway Line''\<rparr>,
                \<lparr>lat = - 1, lng = 0, name = ''Southern Terminal of the Long Distance Coach Network''\<rparr>],
      innerWidth = 600, innerHeight = 500,
      getBBox = (\<lambda>l f. Some (11 * real (length l), 24)),
      random = (\<lambda>k. 0),
      forceSimulation = (\<lambda>t c ns i. c),
      speedRange = 1, uniformBtn = True\<rparr>"

definition two_north :: node_pos where
  "two_north = \<lparr>pos_x = 300, pos_y = 64,
     label = ''Central Station of the Northern Coastal Railway Line'',
     fontSize = 20, sizeScale = 24, labelY = 37, labelWidth = 520, labelHeight = 24,
     drawn = False\<rparr>"

definition two_south :: node_pos where
  "two_south = \<lparr>pos_x = 300, pos_y = 408,
     label = ''Southern Terminal of the Long Distance Coach Network'',
     fontSize = 20, sizeScale = 24, labelY = 37, labelWidth = 520, labelHeight = 24,
     drawn = False\<rparr>"



subsection \<open>Measures of a layout\<close>








subsection \<open>Sample playback\<close>

text \<open>
  The route of two waypoints after the page has loaded and the layout button has been
  clicked once (geographic layout, nothing playing); the animation of its only segment,
  344 pixels long, at speed 1; and the state after a click on the play button.
\<close>

definition two_reverted :: state where
  "two_reverted =
     \<lparr>nodePositions = (nodePositions (load two_env))(0 \<mapsto> two_north, Suc 0 \<mapsto> two_south),
      randomCalls = randomCalls (load two_env), traveller = (300, 64), playing = False,
      speed = 1, currentIndex = 0, isUniform = False, callbacks = [], timers = 0\<rparr>"

definition two_segment :: anim where
  "two_segment = \<lparr>nextIndex = 1, seg_ax = 300, seg_ay = 64, seg_bx = 300, seg_by = 408,
                   duration = 2064, start = None\<rparr>"

definition two_playing :: state where
  "two_playing =
     two_reverted\<lparr>nodePositions := (nodePositions two_reverted)(Suc 0 \<mapsto> two_south\<lparr>drawn := True\<rparr>),
                  playing := True, callbacks := [two_segment]\<rparr>"

text \<open>
  A route of four waypoints in a viewport of 800 by 600 whose force simulation settles on
  the corners of a square with sides of 250 pixels, the link length of the load.
\<close>

definition square :: "(real \<times> real) list" where
  "square = [(150, 150), (400, 150), (400, 400), (150, 400)]"

definition four_env :: env where
  "four_env =
     \<lparr>points = [\<lparr>lat = 0, lng = 0, name = ''A''\<rparr>, \<lparr>lat = 0, lng = 10, name = ''B''\<rparr>,
                \<lparr>lat = 10, lng = 10, name = ''C''\<rparr>, \<lparr>lat = 10, lng = 0, name = ''D''\<rparr>],
      innerWidth = 800, innerHeight = 600,
      getBBox = (\<lambda>l f. Some (11 * real (length l), 24)),
      random = (\<lambda>k. 0),
      forceSimulation = (\<lambda>t c ns i. square ! i),
      speedRange = 1, uniformBtn = True\<rparr>"

text \<open>
  A session on that route: play, pause in the first segment, speed from 1 to 4, play again.
  The frames carry their time stamps; each expiry of a timer is followed by a frame that
  comes 265 ms after the frame in which the timer was started.
\<close>

definition replay_events :: "event list" where
  "replay_events =
     [Play, Frame 1000, Frame 1500, Pause, Frame 1516, SpeedInput 4, Play,
      Frame 2000, Frame 2375, Timeout, Frame 2640, Frame 3015, Timeout, Frame 3280]"

section \<open>Properties\<close>

subsection \<open>Bounds on pi\<close>

lemma sin_coeff_small:
  "sin_coeff (Suc 0) = 1" "sin_coeff 2 = 0" "sin_coeff 3 = - 1 / 6" "sin_coeff 4 = 0"
  by (simp_all add: sin_coeff_def fact_numeral)

lemma sin_poly5: "(\<Sum>m<5. sin_coeff m * x ^ m) = x - x ^ 3 / 6" for x :: real
proof -
  have "{..<5::nat} = {0, 1, 2, 3, 4}" by auto
  then show ?thesis by (simp add: sin_coeff_small)
qed

lemma sin_taylor5: "\<bar>sin x - (x - x ^ 3 / 6)\<bar> \<le> \<bar>x\<bar> ^ 5 / 120" for x :: real
  using Maclaurin_sin_bound [of x 5] by (simp add: sin_poly5 fact_numeral)

lemma sin_lower_arg: "sin (0.5225::real) < 1 / 2"
proof -
  have "sin (0.5225::real) \<le> (0.5225 - 0.5225 ^ 3 / 6) + \<bar>0.5225\<bar> ^ 5 / 120"
    using sin_taylor5 [of "0.5225"] by linarith
  also have "\<dots> < 1 / 2" by (simp add: power_numeral_reduce)
  finally show ?thesis .
qed

lemma sin_upper_arg: "1 / 2 < sin (0.525::real)"
proof -
  have "1 / 2 < (0.525 - 0.525 ^ 3 / 6) - \<bar>0.525\<bar> ^ 5 / (120::real)"
    by (simp add: power_numeral_reduce)
  also have "\<dots> \<le> sin (0.525::real)"
    using sin_taylor5 [of "0.525"] by linarith
  finally show ?thesis .
qed

lemma pi_lower: "(3135::real) / 1000 < pi"
proof (rule ccontr)
  assume "\<not> (3135::real) / 1000 < pi"
  then have le: "pi / 6 \<le> 0.5225" by simp
  have "0.5225 \<le> pi / 2" using pi_ge_two by simp
  with le have "sin (pi / 6) \<le> sin (0.5225::real)"
    by (intro sin_monotone_2pi_le) auto
  with sin_lower_arg show False by (simp add: sin_30)
qed

lemma pi_upper: "pi < (315::real) / 100"
proof (rule ccontr)
  assume "\<not> pi < (315::real) / 100"
  then have le: "0.525 \<le> pi / 6" by simp
  have "sin (0.525::real) \<le> sin (pi / 6)"
    using le by (intro sin_monotone_2pi_le) auto
  with sin_upper_arg show False by (simp add: sin_30)
qed

subsection \<open>Great-circle distance\<close>

lemma atan2_sin_cos:
  assumes t: "0 \<le> t" "t < pi / 2"
  shows "atan2 (sqrt (sin t * sin t)) (sqrt (1 - sin t * sin t)) = t"
proof -
  have c: "0 < cos t" using t by (intro cos_gt_zero_pi) auto
  have s: "0 \<le> sin t" using t by (intro sin_ge_zero) auto
  have "1 - sin t * sin t = cos t * cos t"
    using sin_cos_squared_add [of t] by (simp add: power2_eq_square algebra_simps)
  then have 1: "sqrt (1 - sin t * sin t) = cos t" using c by simp
  have 2: "sqrt (sin t * sin t) = sin t" using s by simp
  have "arctan (sin t / cos t) = t"
    using arctan_tan [of t] t by (simp add: tan_def)
  then show ?thesis unfolding 1 2 using c by (simp add: atan2_def)
qed

lemma haversineKm_same: "haversineKm la lo la lo = 0"
  by (simp add: haversineKm_def toRad_def atan2_def)

lemma haversineKm_equator:
  assumes d: "0 \<le> d" "d < 180"
  shows "haversineKm 0 lo 0 (lo + d) = 6371 * (d * pi / 180)"
proof -
  let ?t = "d * pi / 360"
  have t: "0 \<le> ?t" "?t < pi / 2" using d by auto
  have "haversineKm 0 lo 0 (lo + d)
        = 6371 * (2 * atan2 (sqrt (sin ?t * sin ?t)) (sqrt (1 - sin ?t * sin ?t)))"
    by (simp add: haversineKm_def toRad_def Let_def del: real_sqrt_mult_self real_sqrt_abs2)
  also have "\<dots> = 6371 * (2 * ?t)" by (simp only: atan2_sin_cos [OF t])
  finally show ?thesis by simp
qed

lemma haversineKm_meridian:
  assumes d: "0 \<le> d" "d < 180"
  shows "haversineKm la lo (la + d) lo = 6371 * (d * pi / 180)"
proof -
  let ?t = "d * pi / 360"
  have t: "0 \<le> ?t" "?t < pi / 2" using d by auto
  have "haversineKm la lo (la + d) lo
        = 6371 * (2 * atan2 (sqrt (sin ?t * sin ?t)) (sqrt (1 - sin ?t * sin ?t)))"
    by (simp add: haversineKm_def toRad_def Let_def del: real_sqrt_mult_self real_sqrt_abs2)
  also have "\<dots> = 6371 * (2 * ?t)" by (simp only: atan2_sin_cos [OF t])
  finally show ?thesis by simp
qed

lemma calculateDistance_haversineKm:
  "calculateDistance c1 c2 = haversineKm (lat c1) (lng c1) (lat c2) (lng c2)"
  by (simp add: calculateDistance_def haversineKm_def toRad_def)

lemma one_degree_km: "\<bar>6371 * (pi / 180) - 11119 / 100\<bar> \<le> 5 / 1000 * (11119 / (100::real))"
  using pi_lower pi_upper by (auto simp: abs_if)

lemma two_abs_prod_le: "2 * \<bar>x * y\<bar> \<le> x\<^sup>2 + y\<^sup>2" for x y :: real
proof -
  have "0 \<le> (\<bar>x\<bar> - \<bar>y\<bar>)\<^sup>2" by simp
  also have "\<dots> = x\<^sup>2 + y\<^sup>2 - 2 * \<bar>x * y\<bar>"
    by (simp add: power2_diff abs_mult)
  finally show ?thesis by simp
qed

lemma hav_arg_range:
  fixes p1 p2 dl :: real
  defines "a \<equiv> hav (p2 - p1) + cos p1 * cos p2 * hav dl"
  shows "0 \<le> a \<and> a \<le> 1"
proof -
  define q where "q = hav dl"
  have q: "0 \<le> q" "q \<le> 1"
    using abs_sin_le_one [of "dl / 2"] by (simp_all add: q_def hav_def power2_eq_square [symmetric] abs_square_le_1)
  have "cos (2 * ((p2 - p1) / 2)) = 1 - 2 * (sin ((p2 - p1) / 2))\<^sup>2"
    by (rule cos_double_sin)
  moreover have "2 * ((p2 - p1) / 2) = p2 - p1" by simp
  ultimately have "cos (p2 - p1) = 1 - 2 * (sin ((p2 - p1) / 2))\<^sup>2" by (simp only:)
  then have h: "hav (p2 - p1) = (1 - cos (p2 - p1)) / 2"
    by (simp add: hav_def)
  have c: "cos (p2 - p1) = cos p1 * cos p2 + sin p1 * sin p2"
    by (simp add: cos_diff mult.commute)
  define C where "C = cos p1 * cos p2"
  define S where "S = sin p1 * sin p2"
  have "a = (1 - (C + S)) / 2 + C * q"
    by (simp add: a_def h c q_def C_def S_def)
  also have "\<dots> = (1 - (S + C * (1 - 2 * q))) / 2"
    by (simp add: field_simps)
  finally have a: "a = (1 - (S + C * (1 - 2 * q))) / 2" .
  have "2 * \<bar>S\<bar> + 2 * \<bar>C\<bar> \<le> ((sin p1)\<^sup>2 + (sin p2)\<^sup>2) + ((cos p1)\<^sup>2 + (cos p2)\<^sup>2)"
    unfolding S_def C_def using two_abs_prod_le [of "sin p1" "sin p2"] two_abs_prod_le [of "cos p1" "cos p2"]
    by linarith
  also have "\<dots> = 2"
    using sin_cos_squared_add [of p1] sin_cos_squared_add [of p2] by linarith
  finally have sc: "\<bar>S\<bar> + \<bar>C\<bar> \<le> 1" by simp
  have "\<bar>1 - 2 * q\<bar> \<le> 1" using q by (simp add: abs_le_iff)
  then have "\<bar>C * (1 - 2 * q)\<bar> \<le> \<bar>C\<bar>"
    by (simp add: abs_mult mult_left_le)
  then have "\<bar>S + C * (1 - 2 * q)\<bar> \<le> 1" using sc by linarith
  then show ?thesis unfolding a by (simp add: abs_le_iff)
qed

lemma atan2_arcsin:
  assumes "0 \<le> a" "a \<le> 1"
  shows "atan2 (sqrt a) (sqrt (1 - a)) = arcsin (sqrt a)"
proof (cases "a = 1")
  case True
  then show ?thesis by (simp add: atan2_def)
next
  case False
  then have lt: "a < 1" using assms by simp
  let ?x = "sqrt a"
  have x: "0 \<le> ?x" "?x < 1" using assms lt by (simp_all add: real_sqrt_lt_1_iff)
  have pos: "0 < sqrt (1 - a)" using lt by simp
  have "- 1 < ?x" using x by linarith
  then have b: "- (pi / 2) < arcsin ?x" "arcsin ?x < pi / 2"
    using x arcsin_lt_bounded [of ?x] by blast+
  have x1: "- 1 \<le> ?x" "?x \<le> 1" using x by linarith+
  then have "cos (arcsin ?x) = sqrt (1 - ?x\<^sup>2)" by (rule cos_arcsin)
  then have co: "cos (arcsin ?x) = sqrt (1 - a)" using assms by simp
  have si: "sin (arcsin ?x) = ?x" using x1 by (rule sin_arcsin)
  have "tan (arcsin ?x) = ?x / sqrt (1 - a)" by (simp add: tan_def co si)
  then have "arctan (?x / sqrt (1 - a)) = arcsin ?x"
    using arctan_tan [OF b] by simp
  then show ?thesis using pos by (simp add: atan2_def)
qed

lemma haversineKm_formula: "haversineKm lat1 lon1 lat2 lon2 = haversine_formula lat1 lon1 lat2 lon2"
proof -
  define a where "a = hav (toRad lat2 - toRad lat1)
                      + cos (toRad lat1) * cos (toRad lat2) * hav (toRad (lon2 - lon1))"
  have r: "0 \<le> a \<and> a \<le> 1" unfolding a_def by (rule hav_arg_range)
  have d: "toRad (lat2 - lat1) = toRad lat2 - toRad lat1"
    by (simp add: toRad_def diff_divide_distrib left_diff_distrib)
  have "haversineKm lat1 lon1 lat2 lon2 = 6371 * (2 * atan2 (sqrt a) (sqrt (1 - a)))"
    by (simp add: haversineKm_def Let_def a_def hav_def power2_eq_square d [symmetric] mult.assoc
        del: real_sqrt_mult_self real_sqrt_abs2)
  also have "\<dots> = 6371 * (2 * arcsin (sqrt a))" using r by (simp add: atan2_arcsin)
  finally show ?thesis by (simp add: haversine_formula_def a_def d)
qed

text \<open>
  C4. Both distance functions of the repository compute the haversine great-circle distance
  with radius 6371, for all coordinates: they agree with the haversine formula. The
  distance from a coordinate to itself is 0, and one degree of longitude on the equator,
  from \<open>(0, 0)\<close> to \<open>(0, 1)\<close>, is 111.19 km within 0.5 per cent.
\<close>

theorem haversine_distance_correct:
  "haversineKm lat1 lon1 lat2 lon2 = haversine_formula lat1 lon1 lat2 lon2
   \<and> calculateDistance c1 c2 = haversine_formula (lat c1) (lng c1) (lat c2) (lng c2)
   \<and> haversineKm la lo la lo = 0
   \<and> \<bar>haversineKm 0 0 0 1 - 11119 / 100\<bar> \<le> 5 / 1000 * (11119 / 100)
   \<and> calculateDistance c c = 0
   \<and> \<bar>calculateDistance \<lparr>lat = 0, lng = 0\<rparr> \<lparr>lat = 0, lng = 1\<rparr> - 11119 / 100\<bar>
       \<le> 5 / 1000 * (11119 / 100)"
proof -
  have h: "haversineKm 0 0 0 1 = 6371 * (pi / 180)"
    using haversineKm_equator [of 1 0] by simp
  have "haversineKm la lo la lo = 0
   \<and> \<bar>haversineKm 0 0 0 1 - 11119 / 100\<bar> \<le> 5 / 1000 * (11119 / 100)
   \<and> calculateDistance c c = 0
   \<and> \<bar>calculateDistance \<lparr>lat = 0, lng = 0\<rparr> \<lparr>lat = 0, lng = 1\<rparr> - 11119 / 100\<bar>
       \<le> 5 / 1000 * (11119 / 100)"
    unfolding calculateDistance_haversineKm haversineKm_same
    using one_degree_km by (simp add: h)
  moreover have "calculateDistance c1 c2 = haversine_formula (lat c1) (lng c1) (lat c2) (lng c2)"
    by (simp only: calculateDistance_haversineKm haversineKm_formula)
  ultimately show ?thesis using haversineKm_formula by blast
qed

subsection \<open>Projection\<close>

lemma fold_min_le: "fold min vs v \<le> (v::real)"
proof (induction vs arbitrary: v)
  case Nil
  show ?case by simp
next
  case (Cons a vs)
  have "fold min vs (min a v) \<le> min a v" by (rule Cons.IH)
  then show ?case by simp
qed

lemma fold_max_ge: "(v::real) \<le> fold max vs v"
proof (induction vs arbitrary: v)
  case Nil
  show ?case by simp
next
  case (Cons a vs)
  have "max a v \<le> fold max vs (max a v)" by (rule Cons.IH)
  then show ?case by simp
qed

lemma d3_min_le_max: "vs \<noteq> [] \<Longrightarrow> d3_min vs \<le> d3_max vs"
  by (cases vs) (auto intro: order_trans [OF fold_min_le fold_max_ge])

lemma widen_lt: "lo \<le> hi \<Longrightarrow> widen (lo, hi) = (a, b) \<Longrightarrow> a < b"
  by (auto simp: widen_def split: if_splits)

lemma transDomain_lt:
  assumes "vs \<noteq> []" and "transDomain vs = (a, b)"
  shows "a < b"
proof -
  obtain vMin vMax where w: "widen (d3_min vs, d3_max vs) = (vMin, vMax)"
    by (cases "widen (d3_min vs, d3_max vs)")
  let ?trans = "map (compress ((vMin + vMax) / 2)) vs"
  have "?trans \<noteq> []" using assms(1) by simp
  then have "d3_min ?trans \<le> d3_max ?trans" by (rule d3_min_le_max)
  moreover have "widen (d3_min ?trans, d3_max ?trans) = (a, b)"
    using assms(2) w by (simp add: transDomain_def Let_def)
  ultimately show ?thesis by (rule widen_lt)
qed

lemma scaleLinear_alt:
  "scaleLinear (d0, d1) (r0, r1) w = r0 + (w - d0) / (d1 - d0) * (r1 - r0)"
proof -
  define t where "t = (w - d0) / (d1 - d0)"
  have "r0 * (1 - t) + r1 * t = r0 + t * (r1 - r0)" by (simp add: algebra_simps)
  then show ?thesis by (simp add: scaleLinear_def Let_def t_def)
qed

lemma affine_strict_mono:
  "a < b \<Longrightarrow> r0 < r1 \<Longrightarrow> r0 + a * (r1 - r0) < r0 + b * (r1 - r0)"
  for a b r0 r1 :: real
  by simp

lemma scaleLinear_strict_mono:
  assumes "d0 < d1" "r0 < r1" "u < v"
  shows "scaleLinear (d0, d1) (r0, r1) u < scaleLinear (d0, d1) (r0, r1) v"
proof -
  have "(u - d0) / (d1 - d0) < (v - d0) / (d1 - d0)"
    using assms by (simp add: divide_strict_right_mono)
  then show ?thesis unfolding scaleLinear_alt using assms(2) by (rule affine_strict_mono)
qed

lemma scaleLinear_strict_antimono:
  assumes "d1 < d0" "r0 < r1" "u < v"
  shows "scaleLinear (d0, d1) (r0, r1) v < scaleLinear (d0, d1) (r0, r1) u"
proof -
  have "(v - d0) / (d1 - d0) < (u - d0) / (d1 - d0)"
    using assms by (simp add: divide_strict_right_mono_neg)
  then show ?thesis unfolding scaleLinear_alt using assms(2) by (rule affine_strict_mono)
qed

lemma pad_lt_width: "pad < width e - pad"
  by (simp add: pad_def width_def)

lemma pad_lt_height: "pad < height e - pad"
  by (simp add: pad_def height_def)

text \<open>
  C3. The projection is monotonic on each axis. The script projects a waypoint by applying
  the scales to its raw longitude and latitude (\<open>xScale(p.lng)\<close>, \<open>yScale(p.lat)\<close>); the
  compressed values only fix the domains of the scales. For a non-empty route, a smaller
  longitude gives a strictly smaller \<open>x\<close> and a smaller latitude a strictly larger \<open>y\<close>, so
  the order is kept and two different coordinates are never projected to the same pixel.
\<close>

theorem projection_monotone:
  assumes "points e \<noteq> []"
  shows "(lng a < lng b \<longrightarrow> xScale e (lng a) < xScale e (lng b))
       \<and> (lat a < lat b \<longrightarrow> yScale e (lat b) < yScale e (lat a))"
proof -
  obtain x0 x1 where dx: "transDomain (map lng (points e)) = (x0, x1)"
    by (cases "transDomain (map lng (points e))")
  obtain y0 y1 where dy: "transDomain (map lat (points e)) = (y0, y1)"
    by (cases "transDomain (map lat (points e))")
  have "x0 < x1" using assms dx by (intro transDomain_lt [of "map lng (points e)"]) auto
  then have X: "u < v \<Longrightarrow> xScale e u < xScale e v" for u v
    using scaleLinear_strict_mono [OF _ pad_lt_width] by (simp add: xScale_def dx)
  have "y0 < y1" using assms dy by (intro transDomain_lt [of "map lat (points e)"]) auto
  then have Y: "u < v \<Longrightarrow> yScale e v < yScale e u" for u v
    using scaleLinear_strict_antimono [OF _ pad_lt_height] by (simp add: yScale_def dy)
  show ?thesis using X Y by blast
qed

theorem projection_monotone_witness:
  "points abc_env \<noteq> []
   \<and> lng (points abc_env ! 0) < lng (points abc_env ! 2)
   \<and> xScale abc_env (lng (points abc_env ! 0)) < xScale abc_env (lng (points abc_env ! 2))
   \<and> lat (points abc_env ! 0) < lat (points abc_env ! 2)
   \<and> yScale abc_env (lat (points abc_env ! 2)) < yScale abc_env (lat (points abc_env ! 0))"
proof -
  have p: "points abc_env \<noteq> []" by (simp add: abc_env_def)
  have l: "lng (points abc_env ! 0) < lng (points abc_env ! 2)"
          "lat (points abc_env ! 0) < lat (points abc_env ! 2)"
    by (simp_all add: abc_env_def)
  show ?thesis
    using projection_monotone [OF p, of "points abc_env ! 0" "points abc_env ! 2"] p l by blast
qed

subsection \<open>Input normalisation\<close>

lemma normalizePoint_None: "normalizePoint S p = None \<longleftrightarrow> \<not> hasCoordinates p"
  by (auto simp: normalizePoint_def hasCoordinates_def)

lemma length_normalizePoints: "length (normalizePoints S ps) = length (filter hasCoordinates ps)"
proof (induction ps)
  case Nil
  show ?case by (simp add: normalizePoints_def List.map_filter_simps)
next
  case (Cons p ps)
  then show ?case
    using normalizePoint_None [of S p]
    by (cases "normalizePoint S p") (auto simp: normalizePoints_def List.map_filter_simps)
qed

text \<open>
  C9, as the script has it. A record is dropped exactly when neither of its coordinate pairs
  is complete, whatever the conversion of its values gives; the number of points is the
  number of records with a complete pair; when no record has one, the page ends in the
  message about missing coordinates and builds no canvas; without route data it ends in the
  message about missing data.
\<close>

theorem normalisation_keeps_defined:
  "(normalizePoint S p = None \<longleftrightarrow> \<not> hasCoordinates p)
   \<and> length (normalizePoints S ps) = length (filter hasCoordinates ps)
   \<and> (filter hasCoordinates (rawPoints rd) = [] \<longrightarrow> initPage S (Some rd) = NoCoordinates)
   \<and> initPage S None = NoRouteData"
proof -
  have "initPage S (Some rd) = NoCoordinates" if "filter hasCoordinates (rawPoints rd) = []"
    using that length_normalizePoints [of S "rawPoints rd"] by (simp add: initPage_def Let_def)
  then show ?thesis
    using normalizePoint_None length_normalizePoints by (simp add: initPage_def)
qed

theorem normalisation_keeps_defined_witness:
  "filter hasCoordinates
     (rawPoints \<lparr>route_with_coords = None, coordinates = Some [absent_record]\<rparr>) = []
   \<and> normalizePoint (\<lambda>s. NaN) absent_record = None
   \<and> initPage (\<lambda>s. NaN) (Some \<lparr>route_with_coords = None, coordinates = Some [absent_record]\<rparr>)
       = NoCoordinates"
  using normalisation_keeps_defined [of "\<lambda>s. NaN" absent_record "[absent_record]"
          "\<lparr>route_with_coords = None, coordinates = Some [absent_record]\<rparr>"]
  by (simp add: rawPoints_def hasCoordinates_def absent_record_def)

text \<open>
  C9 does not hold as stated. A record whose latitude is the string \<open>abc\<close>, which no
  conversion turns into a number, is not dropped: it becomes a point with the latitude
  \<open>NaN\<close>, and the page goes on to the canvas.
\<close>

theorem unparseable_record_kept:
  "normalizePoints (\<lambda>s. NaN) [unparseable_record]
     = [\<lparr>n_lat = NaN, n_lng = Finite 10, n_name = ''X''\<rparr>]
   \<and> initPage (\<lambda>s. NaN) (Some \<lparr>route_with_coords = Some [unparseable_record], coordinates = None\<rparr>)
       = Canvas [\<lparr>n_lat = NaN, n_lng = Finite 10, n_name = ''X''\<rparr>]"
  by (simp add: initPage_def rawPoints_def normalizePoints_def List.map_filter_simps
      normalizePoint_def unparseable_record_def)

subsection \<open>Positions stay within the padding\<close>

lemma fold_invariant:
  assumes "\<And>x s. P s \<Longrightarrow> P (f x s)" and "P s"
  shows "P (fold f xs s)"
  using assms(2) by (induction xs arbitrary: s) (auto intro: assms(1))

lemma clampX_bounds: "pad \<le> clampX e v" "clampX e v \<le> width e - pad"
  using pad_lt_width [of e] by (auto simp: clampX_def)

lemma clampY_bounds: "pad \<le> clampY e v" "clampY e v \<le> height e - pad"
  using pad_lt_height [of e] by (auto simp: clampY_def)

lemma inBounds_clamped: "inBounds e (p\<lparr>pos_x := clampX e u, pos_y := clampY e v\<rparr>)"
  by (simp add: inBounds_def clampX_bounds clampY_bounds)

lemma nodeSize_range: "8 \<le> nodeSize e" "nodeSize e \<le> 24"
  by (auto simp: nodeSize_def)

lemma nodeFont_range: "10 \<le> nodeFont e" "nodeFont e \<le> 20"
  by (auto simp: nodeFont_def)

lemma computePosition_inBounds:
  assumes "measureOK e"
  shows "inBounds e (computePosition e i)"
proof -
  let ?lbl = "nodeLabel e i"
  define bbox where "bbox = (case getBBox e ?lbl (nodeFont e) of
                    Some b \<Rightarrow> b
                  | None \<Rightarrow> (min (width e - 2 * pad)
                                 (real (length ?lbl) * max 6 (js_round (nodeFont e * 6 / 10))), 0))"
  define lw where "lw = min (width e - 2 * pad) (fst bbox)"
  define lh where "lh = or_num (snd bbox) (nodeFont e + 4)"
  have w: "600 \<le> width e" and h: "400 \<le> height e" by (simp_all add: width_def height_def)
  have bb: "0 \<le> fst bbox \<and> 0 \<le> snd bbox"
  proof (cases "getBBox e ?lbl (nodeFont e)")
    case None
    have "0 \<le> real (length ?lbl) * max 6 (js_round (nodeFont e * 6 / 10))" by simp
    then show ?thesis using None w by (simp add: bbox_def pad_def)
  next
    case (Some b)
    then show ?thesis using assms by (cases b) (auto simp: bbox_def measureOK_def)
  qed
  have lw: "0 \<le> lw" "lw \<le> width e - 2 * pad" using bb w by (auto simp: lw_def pad_def)
  have lh: "0 \<le> lh" using bb nodeFont_range [of e] by (auto simp: lh_def or_num_def)
  have x: "pos_x (computePosition e i)
           = max (pad + lw / 2) (min (width e - pad - lw / 2) (xScale e (lng (points e ! i))))"
    by (simp add: computePosition_def Let_def lw_def bbox_def)
  have y: "pos_y (computePosition e i)
           = max (pad + nodeSize e) (min (height e - pad - nodeSize e - lh - 4) (yScale e (lat (points e ! i))))"
    by (simp add: computePosition_def Let_def lh_def bbox_def)
  have "pad \<le> pos_x (computePosition e i)" "pos_x (computePosition e i) \<le> width e - pad"
    unfolding x using lw by auto
  moreover have "pad \<le> pos_y (computePosition e i)" "pos_y (computePosition e i) \<le> height e - pad"
    unfolding y using lh nodeSize_range [of e] h by (auto simp: pad_def)
  ultimately show ?thesis by (simp add: inBounds_def)
qed

lemma allInBounds_upd: "allInBounds e np \<Longrightarrow> inBounds e p \<Longrightarrow> allInBounds e (np(i \<mapsto> p))"
  by (simp add: allInBounds_def)

lemma allPlaced_upd: "allPlaced e np \<Longrightarrow> allPlaced e (np(i \<mapsto> p))"
  by (simp add: allPlaced_def)

lemma layoutOK_upd: "layoutOK e np \<Longrightarrow> inBounds e p \<Longrightarrow> layoutOK e (np(i \<mapsto> p))"
  by (simp add: layoutOK_def allInBounds_upd allPlaced_upd)

lemma computeAll_lookup:
  "fold (\<lambda>i np. np(i \<mapsto> computePosition e i)) is np j
   = (if j \<in> set is then Some (computePosition e j) else np j)"
  by (induction "is" arbitrary: np) auto

lemma computeAllPositions_lookup:
  "computeAllPositions e np j = (if j < length (points e) then Some (computePosition e j) else np j)"
  by (simp add: computeAllPositions_def computeAll_lookup)

lemma computeAllPositions_OK:
  assumes "measureOK e" "allInBounds e np"
  shows "layoutOK e (computeAllPositions e np)"
  using assms computePosition_inBounds [OF assms(1)]
  by (auto simp: layoutOK_def allPlaced_def allInBounds_def computeAllPositions_lookup split: if_splits)

lemma drawNode_OK: "layoutOK e np \<Longrightarrow> layoutOK e (drawNode e i np)"
proof -
  assume ok: "layoutOK e np"
  show ?thesis
  proof (cases "np i")
    case None
    then show ?thesis using ok
      by (simp add: drawNode_def Let_def layoutOK_upd inBounds_def clampX_bounds clampY_bounds)
  next
    case (Some pre)
    then have "inBounds e pre" using ok by (simp add: layoutOK_def allInBounds_def)
    then have "inBounds e (pre\<lparr>drawn := True\<rparr>)" by (simp add: inBounds_def)
    then show ?thesis using ok Some by (simp add: drawNode_def layoutOK_upd)
  qed
qed

lemma pushApart_clamped:
  "pushApart e m dx dy d a b = ((axn, ayn), (bxn, byn)) \<Longrightarrow>
     inBounds e (a\<lparr>pos_x := axn, pos_y := ayn\<rparr>) \<and> inBounds e (b\<lparr>pos_x := bxn, pos_y := byn\<rparr>)"
  by (auto simp: pushApart_def Let_def inBounds_def clampX_bounds clampY_bounds)

lemma separatePair_OK: "layoutOK e (fst s) \<Longrightarrow> layoutOK e (fst (separatePair e ij s))"
  by (auto simp: separatePair_def Let_def layoutOK_upd split: prod.splits option.splits
      dest!: pushApart_clamped)

lemma relaxPair_OK: "layoutOK e (fst s) \<Longrightarrow> layoutOK e (fst (relaxPair e ij s))"
  by (auto simp: relaxPair_def Let_def layoutOK_upd split: prod.splits option.splits
      dest!: pushApart_clamped)

lemma separationPass_OK: "layoutOK e (fst s) \<Longrightarrow> layoutOK e (fst (separationPass e s))"
  by (cases s) (auto simp: separationPass_def intro!: fold_invariant [where P = "\<lambda>s. layoutOK e (fst s)"] separatePair_OK)

lemma separationLoop_OK: "layoutOK e (fst s) \<Longrightarrow> layoutOK e (fst (separationLoop e n s))"
proof (induction n arbitrary: s)
  case 0
  then show ?case by simp
next
  case (Suc n)
  obtain np k moved where p: "separationPass e s = (np, k, moved)"
    by (cases "separationPass e s")
  have "layoutOK e np" using separationPass_OK [OF Suc.prems] p by simp
  then show ?case using Suc.IH [of "(np, k)"] p by simp
qed

lemma nudgeTriple_cases:
  "nudgeTriple e ijk s = s
   \<or> (\<exists>j b u v. fst s j = Some b
         \<and> nudgeTriple e ijk s = ((fst s)(j \<mapsto> b\<lparr>pos_x := clampX e u, pos_y := clampY e v\<rparr>), True))"
proof -
  obtain i j k where ijk: "ijk = (i, j, k)" by (cases ijk) auto
  obtain np adj where s: "s = (np, adj)" by (cases s)
  show ?thesis
  proof (cases "i = j \<or> j = k \<or> i = k")
    case True
    then show ?thesis by (simp add: nudgeTriple_def ijk s)
  next
    case ne: False
    show ?thesis
    proof (cases "np i")
      case None
      then show ?thesis using ne by (simp add: nudgeTriple_def ijk s)
    next
      case a: (Some a)
      show ?thesis
      proof (cases "np j")
        case None
        then show ?thesis using ne a by (simp add: nudgeTriple_def ijk s)
      next
        case b: (Some b)
        show ?thesis
        proof (cases "np k")
          case None
          then show ?thesis using ne a b by (simp add: nudgeTriple_def ijk s)
        next
          case c: (Some c)
          have "nudgeTriple e (i, j, k) (np, adj) = (np, adj)
                \<or> (\<exists>u v. nudgeTriple e (i, j, k) (np, adj)
                      = (np(j \<mapsto> b\<lparr>pos_x := clampX e u, pos_y := clampY e v\<rparr>), True))"
            unfolding nudgeTriple_def prod.case a b c option.case Let_def
            by (simp only: ne if_False split: if_split) blast
          then show ?thesis using b by (auto simp: ijk s)
        qed
      qed
    qed
  qed
qed

lemma nudgeTriple_OK: "layoutOK e (fst s) \<Longrightarrow> layoutOK e (fst (nudgeTriple e ijk s))"
  using nudgeTriple_cases [of e ijk s]
  by (auto simp: layoutOK_upd inBounds_clamped)

lemma resolveCollinearity_OK: "layoutOK e np \<Longrightarrow> layoutOK e (fst (resolveCollinearity e np))"
  by (auto simp: resolveCollinearity_def intro!: fold_invariant [where P = "\<lambda>s. layoutOK e (fst s)"] nudgeTriple_OK)

lemma collinearityLoop_OK: "layoutOK e np \<Longrightarrow> layoutOK e (collinearityLoop e n np)"
proof (induction n arbitrary: np)
  case 0
  then show ?case by simp
next
  case (Suc n)
  obtain np' ch where p: "resolveCollinearity e np = (np', ch)"
    by (cases "resolveCollinearity e np")
  have "layoutOK e np'" using resolveCollinearity_OK [OF Suc.prems] p by simp
  then show ?case using Suc.IH [of np'] p by simp
qed

lemma resolveCollisions_OK: "layoutOK e (fst s) \<Longrightarrow> layoutOK e (fst (resolveCollisions e s))"
proof -
  assume ok: "layoutOK e (fst s)"
  obtain np k st where p: "separationLoop e 25 s = (np, k, st)"
    by (cases "separationLoop e 25 s")
  have "layoutOK e np" using separationLoop_OK [OF ok, of 25] p by simp
  then show ?thesis using p by (simp add: resolveCollisions_def collinearityLoop_OK)
qed

lemma relaxLoop_OK: "layoutOK e (fst s) \<Longrightarrow> layoutOK e (fst (relaxLoop e n s))"
proof (induction n arbitrary: s)
  case 0
  then show ?case by simp
next
  case (Suc n)
  obtain np k moved where p: "fold (relaxPair e) (pairs (length (points e))) (fst s, snd s, False) = (np, k, moved)"
    by (cases "fold (relaxPair e) (pairs (length (points e))) (fst s, snd s, False)")
  have "layoutOK e (fst (fold (relaxPair e) (pairs (length (points e))) (fst s, snd s, False)))"
    using Suc.prems by (intro fold_invariant [where P = "\<lambda>s. layoutOK e (fst s)"] relaxPair_OK) simp_all
  then have "layoutOK e np" using p by simp
  then show ?case using Suc.IH [of "(np, k)"] p by simp
qed

lemma writeBack_OK: "layoutOK e np \<Longrightarrow> layoutOK e (writeBack e sim n np)"
  by (simp add: writeBack_def layoutOK_upd inBounds_def clampX_bounds clampY_bounds)

lemma uniformPositions_OK: "layoutOK e np \<Longrightarrow> layoutOK e (uniformPositions e t np)"
  by (simp add: uniformPositions_def Let_def fold_invariant [where P = "layoutOK e"] writeBack_OK)

lemma travellerToFirst_np [simp]: "nodePositions (travellerToFirst s) = nodePositions s"
  by (simp add: travellerToFirst_def split: option.splits)

lemma travellerToFirst_fields [simp]:
  "randomCalls (travellerToFirst s) = randomCalls s"
  "playing (travellerToFirst s) = playing s"
  "speed (travellerToFirst s) = speed s"
  "currentIndex (travellerToFirst s) = currentIndex s"
  "isUniform (travellerToFirst s) = isUniform s"
  "callbacks (travellerToFirst s) = callbacks s"
  "timers (travellerToFirst s) = timers s"
  by (simp_all add: travellerToFirst_def split: option.splits)

lemma applyUniformLinkLayout_OK:
  "layoutOK e (nodePositions s) \<Longrightarrow> layoutOK e (nodePositions (applyUniformLinkLayout e t s))"
  by (simp add: applyUniformLinkLayout_def uniformPositions_OK)

lemma allInBounds_empty: "allInBounds e Map.empty"
  by (simp add: allInBounds_def)

lemma initial_OK:
  assumes "measureOK e"
  shows "layoutOK e (fst (resolveCollisions e (drawNode e 0 (computeAllPositions e Map.empty), 0)))"
  by (intro resolveCollisions_OK) (simp add: drawNode_OK computeAllPositions_OK [OF assms allInBounds_empty])

lemma load_OK:
  assumes "measureOK e"
  shows "layoutOK e (nodePositions (load e))"
proof -
  obtain np k st where r: "resolveCollisions e (drawNode e 0 (computeAllPositions e Map.empty), 0) = (np, k, st)"
    by (cases "resolveCollisions e (drawNode e 0 (computeAllPositions e Map.empty), 0)")
  have "layoutOK e np" using initial_OK [OF assms] r by simp
  then show ?thesis
    by (simp add: load_def Let_def r applyUniformLinkLayout_OK)
qed

lemma toggleUniform_OK:
  assumes "measureOK e" "layoutOK e (nodePositions s)"
  shows "layoutOK e (nodePositions (toggleUniform e s))"
proof (cases "isUniform s")
  case False
  then show ?thesis using assms(2) by (simp add: toggleUniform_def Let_def applyUniformLinkLayout_OK)
next
  case True
  have c: "layoutOK e (computeAllPositions e (nodePositions s))"
    using assms by (intro computeAllPositions_OK) (simp_all add: layoutOK_def)
  obtain np k where r: "relaxLoop e 20 (computeAllPositions e (nodePositions s), randomCalls s) = (np, k)"
    by (cases "relaxLoop e 20 (computeAllPositions e (nodePositions s), randomCalls s)")
  have "layoutOK e np" using relaxLoop_OK [of e "(computeAllPositions e (nodePositions s), randomCalls s)" 20] c r by simp
  then show ?thesis using True by (simp add: toggleUniform_def Let_def r)
qed

lemma animateTo_np [simp]: "nodePositions (animateTo e n s) = nodePositions s"
  by (simp add: animateTo_def Let_def split: prod.splits)

lemma loopHead_OK: "layoutOK e (nodePositions s) \<Longrightarrow> layoutOK e (nodePositions (loopHead e s))"
  by (simp add: loopHead_def Let_def drawNode_OK)

lemma step_np [simp]: "nodePositions (step ts an s) = nodePositions s"
  by (simp add: step_def Let_def)

lemma fold_step_np [simp]: "nodePositions (fold (step ts) ans s) = nodePositions s"
  by (induction ans arbitrary: s) simp_all

lemma handle_OK:
  assumes "measureOK e" "layoutOK e (nodePositions s)"
  shows "layoutOK e (nodePositions (handle e ev s))"
  using assms by (cases ev) (simp_all add: playSequence_def loopHead_OK toggleUniform_OK)

lemma run_OK:
  assumes "measureOK e"
  shows "layoutOK e (nodePositions (run e evs))"
proof -
  have "layoutOK e (nodePositions (fold (handle e) evs s))" if "layoutOK e (nodePositions s)" for s
    using that by (induction evs arbitrary: s) (simp_all add: handle_OK [OF assms])
  then show ?thesis by (simp add: run_def load_OK [OF assms])
qed



subsection \<open>The marker after a change of layout\<close>

lemma fold_dom:
  assumes "\<And>x s. dom (g s) \<subseteq> dom (g (f x s))"
  shows "dom (g s) \<subseteq> dom (g (fold f xs s))"
proof (induction xs arbitrary: s)
  case Nil
  show ?case by simp
next
  case (Cons x xs)
  show ?case using assms [of s x] Cons [of "f x s"] by auto
qed

lemma drawNode_dom: "dom np \<subseteq> dom (drawNode e i np)"
  by (auto simp: drawNode_def Let_def split: option.splits)

lemma separatePair_dom: "dom (fst s) \<subseteq> dom (fst (separatePair e ij s))"
  by (auto simp: separatePair_def Let_def split: prod.splits option.splits if_splits)

lemma relaxPair_dom: "dom (fst s) \<subseteq> dom (fst (relaxPair e ij s))"
  by (auto simp: relaxPair_def Let_def split: prod.splits option.splits if_splits)

lemma fold_separatePair_dom: "dom (fst s) \<subseteq> dom (fst (fold (separatePair e) xs s))"
  by (rule fold_dom [where g = fst]) (rule separatePair_dom)

lemma fold_relaxPair_dom: "dom (fst s) \<subseteq> dom (fst (fold (relaxPair e) xs s))"
  by (rule fold_dom [where g = fst]) (rule relaxPair_dom)

lemma separationPass_dom: "dom (fst s) \<subseteq> dom (fst (separationPass e s))"
proof -
  obtain np k where s: "s = (np, k)" by (cases s)
  show ?thesis
    using fold_separatePair_dom [of "(np, k, False)" e "pairs (length (points e))"]
    by (simp add: separationPass_def s)
qed

lemma separationLoop_dom: "dom (fst s) \<subseteq> dom (fst (separationLoop e n s))"
proof (induction n arbitrary: s)
  case 0
  show ?case by simp
next
  case (Suc n)
  obtain np k moved where p: "separationPass e s = (np, k, moved)"
    by (cases "separationPass e s")
  have "dom (fst s) \<subseteq> dom np" using separationPass_dom [of s e] p by simp
  then show ?case using Suc [of "(np, k)"] p by auto
qed

lemma nudgeTriple_dom: "dom (fst s) \<subseteq> dom (fst (nudgeTriple e ijk s))"
  using nudgeTriple_cases [of e ijk s] by auto

lemma resolveCollinearity_dom: "dom np \<subseteq> dom (fst (resolveCollinearity e np))"
proof -
  have "dom (fst s) \<subseteq> dom (fst (fold (nudgeTriple e) xs s))" for s xs
    by (rule fold_dom [where g = fst]) (rule nudgeTriple_dom)
  from this [of "(np, False)"] show ?thesis by (simp add: resolveCollinearity_def)
qed

lemma collinearityLoop_dom: "dom np \<subseteq> dom (collinearityLoop e n np)"
proof (induction n arbitrary: np)
  case 0
  show ?case by simp
next
  case (Suc n)
  obtain np' ch where p: "resolveCollinearity e np = (np', ch)"
    by (cases "resolveCollinearity e np")
  have "dom np \<subseteq> dom np'" using resolveCollinearity_dom [of np e] p by simp
  then show ?case using Suc [of np'] p by auto
qed

lemma resolveCollisions_dom: "dom (fst s) \<subseteq> dom (fst (resolveCollisions e s))"
proof -
  obtain np k st where p: "separationLoop e 25 s = (np, k, st)"
    by (cases "separationLoop e 25 s")
  have "dom (fst s) \<subseteq> dom np" using separationLoop_dom [of s e 25] p by simp
  then show ?thesis using collinearityLoop_dom [of np e 6] p by (auto simp: resolveCollisions_def)
qed

lemma relaxLoop_dom: "dom (fst s) \<subseteq> dom (fst (relaxLoop e n s))"
proof (induction n arbitrary: s)
  case 0
  show ?case by simp
next
  case (Suc n)
  obtain np k moved where p:
    "fold (relaxPair e) (pairs (length (points e))) (fst s, snd s, False) = (np, k, moved)"
    by (cases "fold (relaxPair e) (pairs (length (points e))) (fst s, snd s, False)")
  have "dom (fst s) \<subseteq> dom np"
    using fold_relaxPair_dom [of "(fst s, snd s, False)" e "pairs (length (points e))"] p by simp
  then show ?case using Suc [of "(np, k)"] p by auto
qed

lemma writeBack_dom: "dom np \<subseteq> dom (writeBack e sim n np)"
  by (auto simp: writeBack_def)

lemma uniformPositions_dom: "dom np \<subseteq> dom (uniformPositions e t np)"
proof -
  have "dom np \<subseteq> dom (fold (writeBack e sim) ns np)" for sim ns
    by (rule fold_dom [where g = "\<lambda>np. np"]) (rule writeBack_dom)
  then show ?thesis by (simp add: uniformPositions_def Let_def)
qed

lemma travellerToFirst_at: "nodePositions s 0 \<noteq> None \<Longrightarrow> travellerAtFirst (travellerToFirst s)"
  by (auto simp: travellerToFirst_def travellerAtFirst_def)

lemma first_placed_initial:
  assumes "points e \<noteq> []"
  shows "fst (resolveCollisions e (drawNode e 0 (computeAllPositions e Map.empty), 0)) 0 \<noteq> None"
proof -
  have "0 \<in> dom (computeAllPositions e Map.empty)"
    using assms by (simp add: dom_def computeAllPositions_lookup)
  then have "0 \<in> dom (drawNode e 0 (computeAllPositions e Map.empty))"
    using drawNode_dom by blast
  then show ?thesis
    using resolveCollisions_dom [of "(drawNode e 0 (computeAllPositions e Map.empty), 0)" e] by auto
qed

lemma travellerAtFirst_cong:
  "nodePositions s' = nodePositions s \<Longrightarrow> traveller s' = traveller s \<Longrightarrow>
     travellerAtFirst s' = travellerAtFirst s"
  by (simp add: travellerAtFirst_def)

lemma uniform_first_placed: "np 0 \<noteq> None \<Longrightarrow> uniformPositions e t np 0 \<noteq> None"
  using uniformPositions_dom [of np e t] by auto

lemma applyUniformLinkLayout_fields [simp]:
  "currentIndex (applyUniformLinkLayout e t s) = currentIndex s"
  "callbacks (applyUniformLinkLayout e t s) = callbacks s"
  "timers (applyUniformLinkLayout e t s) = timers s"
  by (simp_all add: applyUniformLinkLayout_def)

lemma applyUniformLinkLayout_first:
  assumes "nodePositions s 0 \<noteq> None" "travellerAtFirst s"
  shows "nodePositions (applyUniformLinkLayout e t s) 0 \<noteq> None
         \<and> travellerAtFirst (applyUniformLinkLayout e t s)"
proof (cases "length (points e) \<le> 1")
  case True
  then show ?thesis using assms by (simp add: applyUniformLinkLayout_def)
next
  case False
  let ?s = "s\<lparr>nodePositions := uniformPositions e t (nodePositions s)\<rparr>"
  have "nodePositions ?s 0 \<noteq> None" using assms(1) by (simp add: uniform_first_placed)
  then show ?thesis using False travellerToFirst_at [of ?s] by (simp add: applyUniformLinkLayout_def)
qed

lemma load_first:
  assumes "points e \<noteq> []"
  shows "nodePositions (load e) 0 \<noteq> None \<and> travellerAtFirst (load e)
         \<and> callbacks (load e) = [] \<and> timers (load e) = 0"
proof -
  obtain np k st where
    r: "resolveCollisions e (drawNode e 0 (computeAllPositions e Map.empty), 0) = (np, k, st)"
    by (cases "resolveCollisions e (drawNode e 0 (computeAllPositions e Map.empty), 0)")
  have np: "np 0 \<noteq> None" using first_placed_initial [OF assms] r by simp
  define s0 where "s0 = \<lparr>nodePositions = drawNode e 0 (computeAllPositions e Map.empty),
     randomCalls = 0, traveller = (0, 0), playing = False, speed = or_num (speedRange e) 1,
     currentIndex = 0, isUniform = False, callbacks = [], timers = 0\<rparr>"
  define s1 where "s1 = travellerToFirst ((travellerToFirst s0)\<lparr>nodePositions := np, randomCalls := k\<rparr>)"
  have l: "load e = (if uniformBtn e then applyUniformLinkLayout e 250 (s1\<lparr>isUniform := True\<rparr>) else s1)"
    by (simp add: load_def Let_def r s0_def s1_def)
  have s1: "nodePositions s1 0 \<noteq> None" "travellerAtFirst s1" "callbacks s1 = []" "timers s1 = 0"
    using np by (simp_all add: s1_def s0_def travellerToFirst_at)
  have "travellerAtFirst (s1\<lparr>isUniform := True\<rparr>)"
    using s1(2) by (simp add: travellerAtFirst_def)
  then show ?thesis
    using s1 applyUniformLinkLayout_first [of "s1\<lparr>isUniform := True\<rparr>" e 250]
    by (simp add: l)
qed

lemma toggleUniform_first:
  assumes "points e \<noteq> []" "firstReady e s"
  shows "currentIndex (toggleUniform e s) = currentIndex s
         \<and> travellerAtFirst (toggleUniform e s)
         \<and> firstReady e (toggleUniform e s)"
proof (cases "isUniform s")
  case False
  let ?s = "s\<lparr>isUniform := True\<rparr>"
  have t: "toggleUniform e s = applyUniformLinkLayout e 320 ?s"
    using False by (simp add: toggleUniform_def Let_def)
  show ?thesis
  proof (cases "length (points e) \<le> 1")
    case True
    then have one: "length (points e) = 1" using assms(1) by (cases "points e") auto
    then have "travellerAtFirst ?s" using assms(2) by (simp add: firstReady_def travellerAtFirst_def)
    then show ?thesis using assms(2) one
      by (simp add: t applyUniformLinkLayout_def firstReady_def)
  next
    case ge: False
    let ?u = "?s\<lparr>nodePositions := uniformPositions e 320 (nodePositions ?s)\<rparr>"
    have "nodePositions ?u 0 \<noteq> None"
      using assms(2) by (simp add: firstReady_def uniform_first_placed)
    then show ?thesis using ge travellerToFirst_at [of ?u]
      by (simp add: t applyUniformLinkLayout_def firstReady_def)
  qed
next
  case True
  obtain np k where r:
    "relaxLoop e 20 (computeAllPositions e (nodePositions s), randomCalls s) = (np, k)"
    by (cases "relaxLoop e 20 (computeAllPositions e (nodePositions s), randomCalls s)")
  have "0 \<in> dom (computeAllPositions e (nodePositions s))"
    using assms(1) by (simp add: dom_def computeAllPositions_lookup)
  then have np: "np 0 \<noteq> None"
    using relaxLoop_dom [of "(computeAllPositions e (nodePositions s), randomCalls s)" e 20] r
    by auto
  let ?u = "s\<lparr>isUniform := False, nodePositions := np, randomCalls := k\<rparr>"
  have t: "toggleUniform e s = travellerToFirst ?u"
    using True by (simp add: toggleUniform_def Let_def r)
  have "nodePositions ?u 0 \<noteq> None" using np by simp
  then show ?thesis using travellerToFirst_at [of ?u] assms(2)
    by (simp add: t firstReady_def)
qed

lemma animateTo_fields [simp]:
  "currentIndex (animateTo e n s) = currentIndex s"
  "playing (animateTo e n s) = playing s"
  "timers (animateTo e n s) = timers s"
  "speed (animateTo e n s) = speed s"
  "traveller (animateTo e n s) = traveller s"
  by (simp_all add: animateTo_def Let_def split: prod.splits)

lemma loopHead_first: "nodePositions s 0 \<noteq> None \<Longrightarrow> nodePositions (loopHead e s) 0 \<noteq> None"
  using drawNode_dom [of "nodePositions s" e "currentIndex s + 1"]
  by (auto simp: loopHead_def Let_def)

lemma handle_firstReady:
  assumes "points e \<noteq> []" "firstReady e s"
  shows "firstReady e (handle e ev s)"
proof (cases ev)
  case Play
  show ?thesis
  proof (cases "length (points e) = 1")
    case True
    then show ?thesis using assms(2) Play by (simp add: playSequence_def)
  next
    case False
    then show ?thesis using assms(2) Play loopHead_first [of "s\<lparr>playing := True\<rparr>" e]
      by (auto simp: playSequence_def firstReady_def)
  qed
next
  case Pause
  then show ?thesis using assms(2) by (simp add: firstReady_def travellerAtFirst_def)
next
  case (SpeedInput v)
  then show ?thesis using assms(2) by (simp add: firstReady_def travellerAtFirst_def)
next
  case (Frame ts)
  then show ?thesis using assms(2) by (auto simp: firstReady_def travellerAtFirst_def)
next
  case Timeout
  show ?thesis
  proof (cases "length (points e) = 1")
    case True
    then show ?thesis using assms(2) Timeout by (simp add: firstReady_def)
  next
    case False
    then show ?thesis using assms(2) Timeout loopHead_first [of "s\<lparr>timers := timers s - 1\<rparr>" e]
      by (auto simp: firstReady_def)
  qed
next
  case ToggleUniform
  then show ?thesis using toggleUniform_first [OF assms] assms(2) by simp
qed

lemma run_firstReady:
  assumes "points e \<noteq> []"
  shows "firstReady e (run e evs)"
proof -
  have "firstReady e (fold (handle e) evs s)" if "firstReady e s" for s
    using that by (induction evs arbitrary: s) (simp_all add: handle_firstReady [OF assms])
  moreover have "firstReady e (load e)" using load_first [OF assms] by (simp add: firstReady_def)
  ultimately show ?thesis by (simp add: run_def)
qed

text \<open>
  C10. On a page with the layout button and a non-empty route: after the load the marker
  is on the start node, and in whatever state the page is, with whatever playback index,
  a click on the layout button (to the uniform layout or back to the geographic one) leaves
  \<open>currentIndex\<close> as it was and puts the marker on the position of node 0.
\<close>

theorem toggle_moves_traveller_to_first_node:
  assumes "points e \<noteq> []" and "uniformBtn e"
  shows "travellerAtFirst (load e)
       \<and> currentIndex (handle e ToggleUniform (run e evs)) = currentIndex (run e evs)
       \<and> travellerAtFirst (handle e ToggleUniform (run e evs))"
  using load_first [OF assms(1)] toggleUniform_first [OF assms(1) run_firstReady [OF assms(1)], of evs] assms(2)
  by simp

theorem toggle_moves_traveller_to_first_node_witness:
  "points abc_env \<noteq> [] \<and> uniformBtn abc_env
   \<and> travellerAtFirst (load abc_env)
   \<and> currentIndex (handle abc_env ToggleUniform (run abc_env [Play, Frame 1000]))
       = currentIndex (run abc_env [Play, Frame 1000])
   \<and> travellerAtFirst (handle abc_env ToggleUniform (run abc_env [Play, Frame 1000]))"
proof -
  have p: "points abc_env \<noteq> []" and u: "uniformBtn abc_env" by (simp_all add: abc_env_def)
  show ?thesis
    using toggle_moves_traveller_to_first_node [OF p u, of "[Play, Frame 1000]"] p u by blast
qed

subsection \<open>The route of two waypoints\<close>

lemma two_env_simps [simp]:
  "points two_env = [\<lparr>lat = 1, lng = 0, name = ''Central Station of the Northern Coastal Railway Line''\<rparr>,
                \<lparr>lat = - 1, lng = 0, name = ''Southern Terminal of the Long Distance Coach Network''\<rparr>]"
  "width two_env = 600" "height two_env = 500"
  "getBBox two_env = (\<lambda>l f. Some (11 * real (length l), 24))"
  "uniformBtn two_env"
  by (simp_all add: two_env_def width_def height_def)

lemma js_round_examples:
  "js_round 300 = 300" "js_round (108 / 5) = 22" "js_round (40 / 3) = 13" "js_round 10 = 10"
  by (simp_all add: js_round_def)

lemma two_sizes: "nodeSize two_env = 24" "nodeFont two_env = 20"
  by (simp_all add: nodeSize_def nodeFont_def js_round_examples)

lemma two_domains:
  "transDomain [0, 0] = (- 1 / 2, 1 / 2)"
  "transDomain [1, - 1] = (- 1, 1)"
  by (simp_all add: transDomain_def widen_def compress_def Let_def)

lemma two_scales:
  "xScale two_env 0 = 300" "yScale two_env 1 = 40" "yScale two_env (- 1) = 460"
  by (simp_all add: xScale_def yScale_def two_domains scaleLinear_def pad_def Let_def)

lemma two_labels:
  "nodeLabel two_env 0 = ''Central Station of the Northern Coastal Railway Line''"
  "nodeLabel two_env (Suc 0) = ''Southern Terminal of the Long Distance Coach Network''"
  by (simp_all add: nodeLabel_def)

lemma two_computePosition:
  "computePosition two_env 0 = two_north" "computePosition two_env (Suc 0) = two_south"
  by (simp_all add: computePosition_def two_sizes two_labels two_scales pad_def or_num_def
      js_round_examples two_north_def two_south_def Let_def)




lemma hypot_vertical: "hypot 0 v = \<bar>v\<bar>"
  by (simp add: hypot_def)

lemma pairs_two: "pairs (Suc (Suc 0)) = [(0, Suc 0)]" "pairs 2 = [(0, Suc 0)]"
  by (simp_all add: pairs_def eval_nat_numeral upt_rec)













lemma two_computeAll:
  "computeAllPositions two_env np = np(0 \<mapsto> two_north, Suc 0 \<mapsto> two_south)"
  by (rule ext) (auto simp: computeAllPositions_lookup two_computePosition less_Suc_eq eval_nat_numeral)

lemma relaxLoop_unfold:
  "0 < n \<Longrightarrow> relaxLoop e n s =
     (case fold (relaxPair e) (pairs (length (points e))) (fst s, snd s, False) of
        (np, k, moved) \<Rightarrow>
          if \<not> moved then (np, k) else relaxLoop e (n - 1) (np, k))"
  by (cases n) (simp_all split: prod.splits)

lemma two_relax:
  "relaxLoop two_env 20 (computeAllPositions two_env np, k)
   = (np(0 \<mapsto> two_north, Suc 0 \<mapsto> two_south), k)"
  by (simp add: relaxLoop_unfold two_computeAll pairs_two relaxPair_def two_north_def two_south_def
      direction_def hypot_vertical baseSep_def)

lemma applyUniformLinkLayout_isUniform [simp]:
  "isUniform (applyUniformLinkLayout e t s) = isUniform s"
  by (simp add: applyUniformLinkLayout_def)

lemma load_isUniform: "isUniform (load e) = uniformBtn e"
  by (simp add: load_def Let_def split: prod.splits)


subsection \<open>What the separation loop guarantees\<close>








subsection \<open>The revert to the geographic layout\<close>








subsection \<open>Pause, resume and speed\<close>

lemma applyUniformLinkLayout_more_fields [simp]:
  "playing (applyUniformLinkLayout e t s) = playing s"
  "speed (applyUniformLinkLayout e t s) = speed s"
  "randomCalls (applyUniformLinkLayout e t s) = randomCalls s"
  by (simp_all add: applyUniformLinkLayout_def)

lemma load_fields:
  "playing (load e) = False" "speed (load e) = or_num (speedRange e) 1"
  "currentIndex (load e) = 0" "callbacks (load e) = []" "timers (load e) = 0"
  by (simp_all add: load_def Let_def split: prod.splits)

lemma two_run_reverted: "run two_env [ToggleUniform] = two_reverted"
proof -
  have "speedRange two_env = 1" by (simp add: two_env_def)
  then show ?thesis
    by (simp add: run_def toggleUniform_def load_isUniform two_relax Let_def travellerToFirst_def
        two_reverted_def load_fields two_north_def or_num_def)
qed

lemma two_play: "handle two_env Play two_reverted = two_playing"
  by (simp add: playSequence_def loopHead_def animateTo_def drawNode_def nodeXY_def two_reverted_def
      two_playing_def two_segment_def two_north_def two_south_def hypot_vertical Let_def)

lemma two_frames:
  "handle two_env (Frame 1000) two_playing
   = two_playing\<lparr>traveller := (300, 64), callbacks := [two_segment\<lparr>start := Some 1000\<rparr>]\<rparr>"
  "handle two_env (Frame 2032) (two_playing\<lparr>traveller := (300, 64), callbacks := [two_segment\<lparr>start := Some 1000\<rparr>]\<rparr>)
   = two_playing\<lparr>traveller := (300, 236), callbacks := [two_segment\<lparr>start := Some 1000\<rparr>]\<rparr>"
  by (simp_all add: step_def two_playing_def two_segment_def two_reverted_def Let_def)

lemma two_toggle: "handle two_env ToggleUniform (load two_env) = two_reverted"
  using two_run_reverted by (simp add: run_def)

lemma two_to_half:
  "fold (handle two_env) [ToggleUniform, Play, Frame 1000, Frame 2032] (load two_env)
   = two_playing\<lparr>traveller := (300, 236), callbacks := [two_segment\<lparr>start := Some 1000\<rparr>]\<rparr>"
  by (simp add: two_toggle two_play two_frames del: handle.simps)


text \<open>
  C7 does not hold as stated. Half way through the segment of 2064 ms the speed is doubled;
  968 ms later the animation is still in flight, with its duration of 2064 ms, and the
  page is in the state it would be in without the change, but for the value of \<open>speed\<close>.
\<close>

theorem speed_change_ignored_in_flight:
  "run two_env [ToggleUniform, Play, Frame 1000, Frame 2032, SpeedInput 2, Frame 3000]
   = (run two_env [ToggleUniform, Play, Frame 1000, Frame 2032, Frame 3000])\<lparr>speed := 2\<rparr>
   \<and> currentIndex (run two_env [ToggleUniform, Play, Frame 1000, Frame 2032, SpeedInput 2, Frame 3000]) = 0
   \<and> callbacks (run two_env [ToggleUniform, Play, Frame 1000, Frame 2032, SpeedInput 2, Frame 3000])
       = [two_segment\<lparr>start := Some 1000\<rparr>]"
proof -
  have h: "fold (handle two_env) ([ToggleUniform, Play, Frame 1000, Frame 2032] @ evs) (load two_env)
           = fold (handle two_env) evs
               (two_playing\<lparr>traveller := (300, 236), callbacks := [two_segment\<lparr>start := Some 1000\<rparr>]\<rparr>)"
    for evs
    unfolding fold_append using two_to_half by simp
  show ?thesis
    unfolding run_def
    using h [of "[SpeedInput 2, Frame 3000]"] h [of "[Frame 3000]"]
    by (simp add: step_def two_playing_def two_reverted_def two_segment_def or_num_def Let_def)
qed



text \<open>
  C7, as the script has it. The speed is read once, when \<open>animateTo\<close> starts a segment:
  the duration of the queued animation is the pixel distance times 6, clamped to
  \<open>[400, 6000]\<close>, divided by the speed of that moment. A change of the slider leaves the
  queue as it is, and neither a single \<open>step\<close> nor a whole frame depends on the current
  speed.
\<close>

theorem speed_read_when_segment_starts:
  "callbacks (handle e (SpeedInput v) s) = callbacks s
   \<and> step ts an (s\<lparr>speed := v\<rparr>) = (step ts an s)\<lparr>speed := v\<rparr>
   \<and> handle e (Frame ts) (s\<lparr>speed := v\<rparr>) = (handle e (Frame ts) s)\<lparr>speed := v\<rparr>
   \<and> butlast (callbacks (animateTo e n s)) = callbacks s
   \<and> duration (last (callbacks (animateTo e n s)))
       = max 400 (min 6000
           (hypot (fst (nodeXY e (nodePositions s) n) - fst (nodeXY e (nodePositions s) (n - 1)))
                  (snd (nodeXY e (nodePositions s) n) - snd (nodeXY e (nodePositions s) (n - 1))) * 6))
         / speed s"
proof -
  have st: "step ts an (s\<lparr>speed := v\<rparr>) = (step ts an s)\<lparr>speed := v\<rparr>" for an s
    by (simp add: step_def Let_def)
  have "fold (step ts) ans (s\<lparr>speed := v\<rparr>) = (fold (step ts) ans s)\<lparr>speed := v\<rparr>" for ans s
    by (induction ans arbitrary: s) (simp_all add: st)
  note f = this [of "callbacks s" "s\<lparr>callbacks := []\<rparr>"]
  have sw: "s\<lparr>speed := v, callbacks := []\<rparr> = s\<lparr>callbacks := [], speed := v\<rparr>"
    by (cases s) simp
  have "fold (step ts) (callbacks s) (s\<lparr>speed := v, callbacks := []\<rparr>)
        = (fold (step ts) (callbacks s) (s\<lparr>callbacks := []\<rparr>))\<lparr>speed := v\<rparr>"
    unfolding sw by (rule f)
  then have fr: "handle e (Frame ts) (s\<lparr>speed := v\<rparr>) = (handle e (Frame ts) s)\<lparr>speed := v\<rparr>"
    by simp
  show ?thesis using st fr
    by (simp add: animateTo_def Let_def split: prod.splits)
qed

subsection \<open>Two runs of the playback loop\<close>

lemma sn_id_uniformNode [simp]: "sn_id (uniformNode e np i) = i"
  by (simp add: uniformNode_def Let_def)

lemma fold_writeBack_xy:
  assumes "distinct is" "i \<in> set is"
  shows "nodeXY e (fold (writeBack e sim) (map (uniformNode e np0) is) np) i
         = (clampX e (fst (sim i)), clampY e (snd (sim i)))"
  using assms
proof (induction "is" arbitrary: np)
  case Nil
  then show ?case by simp
next
  case (Cons h "is")
  let ?np = "writeBack e sim (uniformNode e np0 h) np"
  show ?case
  proof (cases "i \<in> set is")
    case True
    then show ?thesis using Cons.IH [of ?np] Cons.prems by simp
  next
    case False
    then have ih: "i = h" using Cons.prems by simp
    have keep: "fold (writeBack e sim) (map (uniformNode e np0) js) m i = m i"
      if "i \<notin> set js" for js m
      using that by (induction js arbitrary: m) (simp_all add: writeBack_def)
    have "?np i = Some ((case np i of Some q \<Rightarrow> q | None \<Rightarrow> emptyObject)
             \<lparr>pos_x := clampX e (fst (sim i)), pos_y := clampY e (snd (sim i)),
              sizeScale := sn_sizeScale (uniformNode e np0 i),
              labelWidth := sn_labelWidth (uniformNode e np0 i),
              labelHeight := sn_labelHeight (uniformNode e np0 i),
              fontSize := sn_fontSize (uniformNode e np0 i)\<rparr>)"
      by (simp add: writeBack_def ih)
    then show ?thesis using keep [OF False, of ?np] by (simp add: nodeXY_def)
  qed
qed

lemma uniformPositions_xy:
  assumes "i < length (points e)"
  shows "nodeXY e (uniformPositions e t np) i
         = (clampX e (fst (forceSimulation e t (width e / 2, height e / 2)
                             (map (uniformNode e np) [0..<length (points e)]) i)),
            clampY e (snd (forceSimulation e t (width e / 2, height e / 2)
                             (map (uniformNode e np) [0..<length (points e)]) i)))"
  using assms by (simp add: uniformPositions_def Let_def fold_writeBack_xy)

lemma nodeXY_drawNode: "np j \<noteq> None \<Longrightarrow> nodeXY e (drawNode e j np) i = nodeXY e np i"
  by (auto simp: drawNode_def nodeXY_def)

lemma drawNode_placed: "np i \<noteq> None \<Longrightarrow> drawNode e j np i \<noteq> None"
  using drawNode_dom [of np e j] by auto

lemma four_simps:
  "length (points four_env) = 4" "width four_env = 800" "height four_env = 600"
  "uniformBtn four_env" "speedRange four_env = 1"
  "forceSimulation four_env = (\<lambda>t c ns i. square ! i)"
  by (simp_all add: four_env_def width_def height_def)

lemma four_placed: "i < 4 \<Longrightarrow> nodePositions (load four_env) i \<noteq> None"
  using run_OK [of four_env "[]"]
  by (simp add: run_def layoutOK_def allPlaced_def four_simps measureOK_def four_env_def)

lemma load_uniform_xy:
  assumes "uniformBtn e" "1 < length (points e)" "i < length (points e)"
  shows "\<exists>np. nodeXY e (nodePositions (load e)) i = nodeXY e (uniformPositions e 250 np) i"
  using assms by (auto simp: load_def Let_def applyUniformLinkLayout_def split: prod.splits)

lemma four_xy: "i < 4 \<Longrightarrow> nodeXY four_env (nodePositions (load four_env)) i = square ! i"
proof -
  assume i: "i < 4"
  obtain np where
    "nodeXY four_env (nodePositions (load four_env)) i = nodeXY four_env (uniformPositions four_env 250 np) i"
    using load_uniform_xy [of four_env i] i by (auto simp: four_simps)
  moreover have "square ! i \<in> set square" using i by (intro nth_mem) (simp add: square_def)
  then have "clampX four_env (fst (square ! i)) = fst (square ! i)"
            "clampY four_env (snd (square ! i)) = snd (square ! i)"
    by (auto simp: square_def clampX_def clampY_def four_simps pad_def)
  ultimately show ?thesis
    using uniformPositions_xy [of i four_env 250 np] i by (simp add: four_simps)
qed

lemma hypot_horizontal: "hypot u 0 = \<bar>u\<bar>"
  by (simp add: hypot_def)

lemmas playback_eval =
  playSequence_def loopHead_def animateTo_def step_def Let_def load_fields four_simps or_num_def
  nodeXY_drawNode drawNode_placed four_placed four_xy square_def hypot_horizontal hypot_vertical

text \<open>
  C8 fails on the script. In the session above the second run of \<open>playSequence\<close>, started
  by the second click on play, has brought \<open>currentIndex\<close> to 2 and is still playing when
  the animation of the first run, which the pause never ended, completes at the frame of
  3500 ms: the first run then stores its own \<open>next\<close>, and \<open>currentIndex\<close> falls back to 1.
\<close>

theorem currentIndex_goes_back:
  "currentIndex (run four_env replay_events) = 2
   \<and> playing (run four_env replay_events)
   \<and> currentIndex (run four_env (replay_events @ [Frame 3500])) = 1"
  by (simp add: run_def replay_events_def playback_eval)

end
